theory Spec2Isabelle
  imports Main
begin

section \<open>Byte strings\<close>

text \<open>
  Go strings and byte slices are sequences of bytes; both are modelled as \<open>string\<close>
  (a list of 8-bit characters). The library predicates used by the scanner are written
  out as recursive functions.
\<close>

text \<open>\<^verbatim>\<open>strings.HasPrefix(s, prefix)\<close>\<close>

fun HasPrefix :: "string \<Rightarrow> string \<Rightarrow> bool" where
  "HasPrefix s [] = True"
| "HasPrefix [] (p # ps) = False"
| "HasPrefix (c # cs) (p # ps) = (c = p \<and> HasPrefix cs ps)"

text \<open>\<^verbatim>\<open>strings.HasSuffix(s, suffix)\<close>\<close>

definition HasSuffix :: "string \<Rightarrow> string \<Rightarrow> bool" where
  "HasSuffix s suffix = HasPrefix (rev s) (rev suffix)"

text \<open>\<^verbatim>\<open>strings.TrimSuffix(s, suffix)\<close>: \<open>s\<close> without the suffix when it has it, else \<open>s\<close>.\<close>

definition TrimSuffix :: "string \<Rightarrow> string \<Rightarrow> string" where
  "TrimSuffix s suffix =
     (if HasSuffix s suffix then take (length s - length suffix) s else s)"

text \<open>
  \<^verbatim>\<open>bytes.Contains(b, subslice)\<close>: whether \<open>subslice\<close> occurs in \<open>b\<close> at some offset.
  The empty slice occurs in every slice.
\<close>

fun bytes_Contains :: "string \<Rightarrow> string \<Rightarrow> bool" where
  "bytes_Contains [] sub = (sub = [])"
| "bytes_Contains (c # cs) sub = (HasPrefix (c # cs) sub \<or> bytes_Contains cs sub)"

text \<open>
  \<^verbatim>\<open>strings.ToLower\<close> on the ASCII letters. Go also lowers letters beyond ASCII; none
  of them is mapped to one of the bytes of \<^verbatim>\<open>.node\<close>, and no byte of a multi-byte
  sequence is an ASCII byte, so the suffix test of \<^verbatim>\<open>FindNodeFiles\<close> sees the same
  answer.
\<close>

definition lowerChar :: "char \<Rightarrow> char" where
  "lowerChar c =
     (case map_of (zip ''ABCDEFGHIJKLMNOPQRSTUVWXYZ'' ''abcdefghijklmnopqrstuvwxyz'') c of
        Some d \<Rightarrow> d
      | None \<Rightarrow> c)"

definition ToLower :: "string \<Rightarrow> string" where
  "ToLower s = map lowerChar s"

section \<open>The host: platform, file system and path library\<close>

text \<open>
  What \<^verbatim>\<open>os.Stat\<close> reports for a path, as far as the scanner looks at it:
  success, an error for which \<^verbatim>\<open>os.IsNotExist\<close> holds, or any other error.
\<close>

datatype stat_result = StatOK | ErrNotExist | ErrOther

text \<open>
  What \<^verbatim>\<open>filepath.Walk\<close> sees at a path: \<^verbatim>\<open>Lstat\<close> fails, or the entry is not a
  directory, or it is a directory whose names cannot be read, or a directory with its
  entries in lexical order.
\<close>

datatype fs_entry =
    LstatErr
  | NonDir
  | DirUnreadable
  | Directory "(string \<times> fs_entry) list"

text \<open>
  The host is a parameter of every function of the scanner: \<^verbatim>\<open>runtime.GOOS\<close>, the
  answers of \<^verbatim>\<open>os.Stat\<close> and \<^verbatim>\<open>os.ReadFile\<close> (\<open>Inl\<close> the error's message, \<open>Inr\<close>
  the content), the path functions of \<^verbatim>\<open>path/filepath\<close>, and the tree found under a
  path by \<^verbatim>\<open>filepath.Walk\<close>.
\<close>

record host =
  runtime_GOOS :: string
  os_Stat :: "string \<Rightarrow> stat_result"
  os_ReadFile :: "string \<Rightarrow> string + string"
  filepath_Join :: "string list \<Rightarrow> string"
  filepath_Base :: "string \<Rightarrow> string"
  filepath_Dir :: "string \<Rightarrow> string"
  walk_tree :: "string \<Rightarrow> fs_entry"

section \<open>Regular expressions of the classifier\<close>

text \<open>
  The patterns of \<^verbatim>\<open>electron_detector.go\<close> are built from three things only:
  literal text, \<^verbatim>\<open>\s*\<close>, and one capture group of the shape \<^verbatim>\<open>([0-9.]+)\<close> or
  \<^verbatim>\<open>([^"]+)\<close>. Every repetition is followed by a literal whose first byte lies
  outside the repeated class, or ends the pattern, so the leftmost-first match of Go's
  \<^verbatim>\<open>regexp\<close> is the greedy one and is found without backtracking.
\<close>

datatype re_class = Digit_or_dot | Not_dquote | Space

datatype re_item = Lit string | Star re_class | Group_plus re_class

fun in_class :: "re_class \<Rightarrow> char \<Rightarrow> bool" where
  "in_class Digit_or_dot c = (c \<in> set ''0123456789.'')"
| "in_class Not_dquote c = (c \<noteq> CHR 0x22)"
| "in_class Space c = (c \<in> set [CHR 0x09, CHR 0x0A, CHR 0x0C, CHR 0x0D, CHR 0x20])"

text \<open>
  A match of the items at the start of the text: the matched text and the captured
  groups, or \<open>None\<close>.
\<close>

fun match_here :: "re_item list \<Rightarrow> string \<Rightarrow> (string \<times> string list) option" where
  "match_here [] s = Some ([], [])"
| "match_here (Lit l # r) s =
     (if HasPrefix s l
      then (case match_here r (drop (length l) s) of
              Some (m, caps) \<Rightarrow> Some (l @ m, caps)
            | None \<Rightarrow> None)
      else None)"
| "match_here (Star k # r) s =
     (case match_here r (dropWhile (in_class k) s) of
        Some (m, caps) \<Rightarrow> Some (takeWhile (in_class k) s @ m, caps)
      | None \<Rightarrow> None)"
| "match_here (Group_plus k # r) s =
     (if takeWhile (in_class k) s = [] then None
      else (case match_here r (dropWhile (in_class k) s) of
              Some (m, caps) \<Rightarrow>
                Some (takeWhile (in_class k) s @ m, takeWhile (in_class k) s # caps)
            | None \<Rightarrow> None))"

text \<open>
  \<^verbatim>\<open>re.FindStringSubmatch(s)\<close>: the leftmost match as the list of the whole match
  followed by the groups, and the empty list (Go's \<^verbatim>\<open>nil\<close>) when nothing matches.
\<close>

fun FindStringSubmatch :: "re_item list \<Rightarrow> string \<Rightarrow> string list" where
  "FindStringSubmatch re [] =
     (case match_here re [] of Some (m, caps) \<Rightarrow> m # caps | None \<Rightarrow> [])"
| "FindStringSubmatch re (c # cs) =
     (case match_here re (c # cs) of
        Some (m, caps) \<Rightarrow> m # caps
      | None \<Rightarrow> FindStringSubmatch re cs)"

text \<open>The patterns, named by where the source writes them.\<close>

text \<open>\<^verbatim>\<open><key>ElectronVersion</key>\s*<string>([0-9.]+)\<close>\<close>

definition re_ElectronVersion_key :: "re_item list" where
  "re_ElectronVersion_key =
     [Lit ''<key>ElectronVersion</key>'', Star Space, Lit ''<string>'',
      Group_plus Digit_or_dot]"

text \<open>\<^verbatim>\<open><key>CFBundleVersion</key>\s*<string>([0-9.]+)\<close>\<close>

definition re_CFBundleVersion_key :: "re_item list" where
  "re_CFBundleVersion_key =
     [Lit ''<key>CFBundleVersion</key>'', Star Space, Lit ''<string>'',
      Group_plus Digit_or_dot]"

text \<open>\<^verbatim>\<open>Electron/([0-9.]+)\<close>\<close>

definition re_Electron_slash :: "re_item list" where
  "re_Electron_slash = [Lit ''Electron/'', Group_plus Digit_or_dot]"

text \<open>\<^verbatim>\<open>electron@([0-9.]+)\<close>\<close>

definition re_electron_at :: "re_item list" where
  "re_electron_at = [Lit ''electron@'', Group_plus Digit_or_dot]"

text \<open>\<^verbatim>\<open>electron": "([^"]+)"\<close> (the source's pattern has no opening quote)\<close>

definition re_electron_json_tail :: "re_item list" where
  "re_electron_json_tail =
     [Lit (''electron'' @ [CHR 0x22] @ '': '' @ [CHR 0x22]), Group_plus Not_dquote,
      Lit [CHR 0x22]]"

text \<open>\<^verbatim>\<open>"electron": "([^"]+)"\<close>\<close>

definition re_electron_json :: "re_item list" where
  "re_electron_json =
     [Lit ([CHR 0x22] @ ''electron'' @ [CHR 0x22] @ '': '' @ [CHR 0x22]),
      Group_plus Not_dquote, Lit [CHR 0x22]]"

text \<open>\<^verbatim>\<open>"electronVersion": "([^"]+)"\<close>\<close>

definition re_electronVersion_json :: "re_item list" where
  "re_electronVersion_json =
     [Lit ([CHR 0x22] @ ''electronVersion'' @ [CHR 0x22] @ '': '' @ [CHR 0x22]),
      Group_plus Not_dquote, Lit [CHR 0x22]]"

text \<open>\<^verbatim>\<open>"electron":\s*"([^"]+)"\<close>\<close>

definition re_electron_dep :: "re_item list" where
  "re_electron_dep =
     [Lit ([CHR 0x22] @ ''electron'' @ [CHR 0x22] @ '':''), Star Space, Lit [CHR 0x22],
      Group_plus Not_dquote, Lit [CHR 0x22]]"

text \<open>\<^verbatim>\<open>"electronVersion":\s*"([^"]+)"\<close>\<close>

definition re_electronVersion_dep :: "re_item list" where
  "re_electronVersion_dep =
     [Lit ([CHR 0x22] @ ''electronVersion'' @ [CHR 0x22] @ '':''), Star Space,
      Lit [CHR 0x22], Group_plus Not_dquote, Lit [CHR 0x22]]"

section \<open>Runtime classifier (\<^verbatim>\<open>electron_detector.go\<close>)\<close>

text \<open>
  The \<^verbatim>\<open>verbose\<close> flag only adds lines to the standard output and changes no result;
  the functions below leave it out. A Go result \<^verbatim>\<open>(bool, string, error)\<close> is a triple
  whose error is \<open>None\<close> for \<^verbatim>\<open>nil\<close> and \<open>Some\<close> of the message otherwise.
\<close>

text \<open>
  The loop \<^verbatim>\<open>for _, regex := range ... { matches := re.FindStringSubmatch(s);
  if len(matches) > 1 { version = matches[1]; break } }\<close>, from the current value of
  \<^verbatim>\<open>version\<close>.
\<close>

fun scanVersion :: "re_item list list \<Rightarrow> string \<Rightarrow> string \<Rightarrow> string" where
  "scanVersion [] s version = version"
| "scanVersion (regex # regexes) s version =
     (let matches = FindStringSubmatch regex s
      in if length matches > 1 then matches ! 1 else scanVersion regexes s version)"

definition versionRegexes :: "re_item list list" where
  "versionRegexes =
     [re_ElectronVersion_key, re_CFBundleVersion_key, re_Electron_slash, re_electron_at,
      re_electron_json_tail, re_electronVersion_json]"

definition isElectronAppMacos :: "host \<Rightarrow> string \<Rightarrow> bool \<times> string \<times> string option" where
  "isElectronAppMacos h appPath =
     (if \<not> HasSuffix appPath ''.app'' then (False, [], None)
      else
        let plistPath = filepath_Join h [appPath, ''Contents'', ''Info.plist''] in
        if os_Stat h plistPath = ErrNotExist then (False, [], None)
        else
          let frameworkPath =
                filepath_Join h
                  [appPath, ''Contents'', ''Frameworks'', ''Electron Framework.framework'']
          in
          if os_Stat h frameworkPath = StatOK then
            (let version = ''unknown'' in
             case os_ReadFile h plistPath of
               Inl err \<Rightarrow> (True, version, None)
             | Inr plistContent \<Rightarrow>
                 let version = scanVersion versionRegexes plistContent version;
                     frameworkPlistPath =
                       filepath_Join h [frameworkPath, ''Resources'', ''Info.plist'']
                 in
                 if os_Stat h frameworkPlistPath = StatOK then
                   (case os_ReadFile h frameworkPlistPath of
                      Inl err \<Rightarrow> (True, version, None)
                    | Inr frameworkPlist \<Rightarrow>
                        (True, scanVersion versionRegexes frameworkPlist version, None))
                 else (True, version, None))
          else
            let asarPath =
                  filepath_Join h [appPath, ''Contents'', ''Resources'', ''app.asar'']
            in
            if os_Stat h asarPath = StatOK then
              (let version = ''unknown'';
                   packageJsonPath =
                     filepath_Join h
                       [appPath, ''Contents'', ''Resources'', ''app'', ''package.json'']
               in
               if os_Stat h packageJsonPath = StatOK then
                 (case os_ReadFile h packageJsonPath of
                    Inl err \<Rightarrow> (True, version, None)
                  | Inr packageContent \<Rightarrow>
                      (True, scanVersion [re_electron_dep] packageContent version, None))
               else (True, version, None))
            else (False, [], None))"

text \<open>
  The executable of a Windows candidate: the path itself when it ends in \<^verbatim>\<open>.exe\<close>,
  else \<^verbatim>\<open>filepath.Join(appPath, filepath.Base(appPath)+".exe")\<close>. The source repeats
  these lines in each of its Windows functions.
\<close>

definition windowsExePath :: "host \<Rightarrow> string \<Rightarrow> string" where
  "windowsExePath h appPath =
     (if \<not> HasSuffix appPath ''.exe''
      then filepath_Join h [appPath, filepath_Base h appPath @ ''.exe'']
      else appPath)"

definition isElectronAppWindows :: "host \<Rightarrow> string \<Rightarrow> bool \<times> string \<times> string option" where
  "isElectronAppWindows h appPath =
     (let exePath = windowsExePath h appPath in
      if os_Stat h exePath = ErrNotExist then (False, [], None)
      else
        let resourcesDir = filepath_Join h [filepath_Dir h exePath, ''resources''] in
        if os_Stat h resourcesDir = ErrNotExist then (False, [], None)
        else
          let asarPath = filepath_Join h [resourcesDir, ''app.asar''] in
          if os_Stat h asarPath = StatOK then
            (let version = ''unknown'';
                 packageJsonPath = filepath_Join h [resourcesDir, ''app'', ''package.json'']
             in
             if os_Stat h packageJsonPath = StatOK then
               (case os_ReadFile h packageJsonPath of
                  Inl err \<Rightarrow> (True, version, None)
                | Inr packageContent \<Rightarrow>
                    let matches = FindStringSubmatch re_electron_dep packageContent in
                    if length matches > 1 then (True, matches ! 1, None)
                    else
                      let matches = FindStringSubmatch re_electronVersion_dep packageContent
                      in if length matches > 1 then (True, matches ! 1, None)
                         else (True, version, None))
             else
               (case os_ReadFile h exePath of
                  Inl err \<Rightarrow> (True, version, None)
                | Inr exeContent \<Rightarrow>
                    let matches = FindStringSubmatch re_Electron_slash exeContent in
                    if length matches > 1 then (True, matches ! 1, None)
                    else
                      (True,
                       scanVersion
                         [re_electron_at, re_electron_json, re_electronVersion_json]
                         exeContent version,
                       None)))
          else
            let electronAsarPath = filepath_Join h [resourcesDir, ''electron.asar''] in
            if os_Stat h electronAsarPath = StatOK then
              (let version = ''unknown'' in
               case os_ReadFile h exePath of
                 Inl err \<Rightarrow> (True, version, None)
               | Inr exeContent \<Rightarrow>
                   (True, scanVersion [re_Electron_slash] exeContent version, None))
            else (False, [], None))"

definition IsElectronApp :: "host \<Rightarrow> string \<Rightarrow> bool \<times> string \<times> string option" where
  "IsElectronApp h appPath =
     (if runtime_GOOS h = ''darwin'' then isElectronAppMacos h appPath
      else if runtime_GOOS h = ''windows'' then isElectronAppWindows h appPath
      else (False, [], Some ''unsupported operating system''))"

section \<open>Archive presence\<close>

definition GetAsarPath :: "host \<Rightarrow> string \<Rightarrow> string" where
  "GetAsarPath h appPath =
     (if runtime_GOOS h = ''darwin''
      then filepath_Join h [appPath, ''Contents'', ''Resources'', ''app.asar'']
      else if runtime_GOOS h = ''windows''
      then filepath_Join h
             [filepath_Dir h (windowsExePath h appPath), ''resources'', ''app.asar'']
      else [])"

text \<open>
  The function \<^verbatim>\<open>HasAsarFile\<close>; the field of that name of the result is declared
  with the record below.
\<close>

definition HasAsarFile_at :: "host \<Rightarrow> string \<Rightarrow> bool" where
  "HasAsarFile_at h appPath = (os_Stat h (GetAsarPath h appPath) = StatOK)"

section \<open>Integrity evidence (\<^verbatim>\<open>CheckAsarIntegrityForApp\<close> and its two platform checks)\<close>

record AppResult =
  Path :: string
  IsElectron :: bool
  Version :: string
  HasAsarFile :: bool
  AsarIntegrity :: bool
  OnlyLoadFromAsar :: bool
  NodeFiles :: "string list"
  IntegrityError :: string

text \<open>
  The loop \<^verbatim>\<open>for _, sig := range signatures { if bytes.Contains(content, sig) {
  flag = true; break } }\<close> over a flag that is false before it.
\<close>

fun findSignature :: "string \<Rightarrow> string list \<Rightarrow> bool" where
  "findSignature content [] = False"
| "findSignature content (sig # sigs) =
     (if bytes_Contains content sig then True else findSignature content sigs)"

definition checkAsarIntegrityMacos :: "host \<Rightarrow> string \<Rightarrow> bool \<times> bool \<times> string option" where
  "checkAsarIntegrityMacos h appPath =
     (let plistPath = filepath_Join h [appPath, ''Contents'', ''Info.plist''] in
      case os_ReadFile h plistPath of
        Inl err \<Rightarrow> (False, False, Some (''error reading Info.plist: '' @ err))
      | Inr plistContent \<Rightarrow>
          let hasAsarIntegrity =
                (if bytes_Contains plistContent ''<key>ElectronAsarIntegrity</key>''
                 then (if bytes_Contains plistContent ''<key>hash</key>'' \<and>
                          bytes_Contains plistContent ''<key>algorithm</key>''
                       then True
                       else True)
                 else False);
              executablePath =
                filepath_Join h
                  [appPath, ''Contents'', ''MacOS'',
                   filepath_Base h (TrimSuffix appPath ''.app'')];
              hasOnlyLoadFromAsar =
                (if os_Stat h executablePath = StatOK
                 then (case os_ReadFile h executablePath of
                         Inl err \<Rightarrow> False
                       | Inr execContent \<Rightarrow>
                           (if bytes_Contains execContent ''OnlyLoadAppFromAsar''
                            then True else False))
                 else False);
              hasOnlyLoadFromAsar =
                (if \<not> hasOnlyLoadFromAsar
                 then findSignature plistContent
                        [''OnlyLoadAppFromAsar'', ''OnlyLoadFromAsar'',
                         ''FuseV1Options.OnlyLoadAppFromAsar'']
                 else hasOnlyLoadFromAsar)
          in (hasAsarIntegrity, hasOnlyLoadFromAsar, None))"

definition asarIntegritySignatures :: "string list" where
  "asarIntegritySignatures = [''ElectronAsar'', ''Integrity'', ''sha256'']"

text \<open>
  The loop \<^verbatim>\<open>for _, sig := range asarIntegritySignatures { if bytes.Contains(exeContent,
  sig) { matchCount++ } }\<close>, from the current value of \<^verbatim>\<open>matchCount\<close>.
\<close>

fun countSignatures :: "string \<Rightarrow> string list \<Rightarrow> int \<Rightarrow> int" where
  "countSignatures exeContent [] matchCount = matchCount"
| "countSignatures exeContent (sig # sigs) matchCount =
     countSignatures exeContent sigs
       (if bytes_Contains exeContent sig then matchCount + 1 else matchCount)"

text \<open>
  The value of \<^verbatim>\<open>matchCount\<close> when \<^verbatim>\<open>checkAsarIntegrityWindows\<close> compares it with 2:
  the loop over the three signatures, then 2 more for the validation switch.
\<close>

definition matchCount :: "string \<Rightarrow> int" where
  "matchCount exeContent =
     (let matchCount = countSignatures exeContent asarIntegritySignatures 0 in
      if bytes_Contains exeContent ''EnableEmbeddedAsarIntegrityValidation''
      then matchCount + 2
      else matchCount)"

definition checkAsarIntegrityWindows :: "host \<Rightarrow> string \<Rightarrow> bool \<times> bool \<times> string option" where
  "checkAsarIntegrityWindows h appPath =
     (let exePath = windowsExePath h appPath in
      case os_ReadFile h exePath of
        Inl err \<Rightarrow> (False, False, Some (''error reading executable: '' @ err))
      | Inr exeContent \<Rightarrow>
          let hasOnlyLoadFromAsar =
                (if bytes_Contains exeContent ''OnlyLoadAppFromAsar'' then True
                 else findSignature exeContent
                        [''OnlyLoadFromAsar'', ''FuseV1Options.OnlyLoadAppFromAsar'']);
              hasAsarIntegrity = (if matchCount exeContent \<ge> 2 then True else False)
          in (hasAsarIntegrity, hasOnlyLoadFromAsar, None))"

definition CheckAsarIntegrityForApp :: "host \<Rightarrow> string \<Rightarrow> AppResult" where
  "CheckAsarIntegrityForApp h appPath =
     (let result =
            \<lparr>Path = appPath, IsElectron = False, Version = [], HasAsarFile = False,
             AsarIntegrity = False, OnlyLoadFromAsar = False, NodeFiles = [],
             IntegrityError = []\<rparr>
      in
      case IsElectronApp h appPath of
        (isElectron, version, Some err) \<Rightarrow> result\<lparr>IntegrityError := err\<rparr>
      | (isElectron, version, None) \<Rightarrow>
          let result = result\<lparr>IsElectron := isElectron, Version := version\<rparr> in
          if \<not> isElectron then result
          else
            let result = result\<lparr>HasAsarFile := HasAsarFile_at h appPath\<rparr> in
            if \<not> HasAsarFile result then result
            else if runtime_GOOS h = ''darwin'' then
              (case checkAsarIntegrityMacos h appPath of
                 (hasIntegrity, onlyLoadFromAsar, err) \<Rightarrow>
                   let result =
                         result\<lparr>AsarIntegrity := hasIntegrity,
                                OnlyLoadFromAsar := onlyLoadFromAsar\<rparr>
                   in (case err of
                         Some e \<Rightarrow> result\<lparr>IntegrityError := e\<rparr>
                       | None \<Rightarrow> result))
            else if runtime_GOOS h = ''windows'' then
              (case checkAsarIntegrityWindows h appPath of
                 (hasIntegrity, onlyLoadFromAsar, err) \<Rightarrow>
                   let result =
                         result\<lparr>AsarIntegrity := hasIntegrity,
                                OnlyLoadFromAsar := onlyLoadFromAsar\<rparr>
                   in (case err of
                         Some e \<Rightarrow> result\<lparr>IntegrityError := e\<rparr>
                       | None \<Rightarrow> result))
            else result\<lparr>IntegrityError := ''unsupported operating system''\<rparr>)"

section \<open>Native-module enumeration (\<^verbatim>\<open>FindNodeFiles\<close>)\<close>

text \<open>
  What the function passed to \<^verbatim>\<open>filepath.Walk\<close> returns: \<^verbatim>\<open>nil\<close>,
  \<^verbatim>\<open>filepath.SkipDir\<close>, or the error \<^verbatim>\<open>max files reached\<close>.
\<close>

datatype walk_error = NoError | SkipDir | MaxFilesReached

text \<open>
  The function literal of \<^verbatim>\<open>FindNodeFiles\<close>, with the slice \<^verbatim>\<open>nodeFiles\<close> it captures
  passed in and returned. \<open>name\<close> and \<open>isDir\<close> are \<^verbatim>\<open>info.Name()\<close> and
  \<^verbatim>\<open>info.IsDir()\<close>; \<open>err\<close> says that the walk reports an error for the path.
\<close>

definition visit ::
  "int \<Rightarrow> string \<Rightarrow> string \<Rightarrow> bool \<Rightarrow> bool \<Rightarrow> string list \<Rightarrow> string list \<times> walk_error"
where
  "visit maxFiles path name isDir err nodeFiles =
     (if err then (nodeFiles, SkipDir)
      else if \<not> isDir \<and> HasSuffix (ToLower name) ''.node'' then
        (let nodeFiles = nodeFiles @ [path] in
         if maxFiles > 0 \<and> int (length nodeFiles) \<ge> maxFiles
         then (nodeFiles, MaxFilesReached)
         else (nodeFiles, NoError))
      else (nodeFiles, NoError))"

fun isDirectory :: "fs_entry \<Rightarrow> bool" where
  "isDirectory (Directory entries) = True"
| "isDirectory DirUnreadable = True"
| "isDirectory e = False"

text \<open>
  \<^verbatim>\<open>filepath.Walk\<close> of the Go library, for this function literal. \<open>walk\<close> is the
  library's step for one path: when \<^verbatim>\<open>Lstat\<close> failed the function is called with the
  error; a non-directory is visited; a directory is visited (with the error of reading
  its names, if any) and, unless the function returned an error, its entries are walked
  in order. \<open>walk_names\<close> is the loop over the entries: \<^verbatim>\<open>SkipDir\<close> from a directory
  or from the report of a failed \<^verbatim>\<open>Lstat\<close> goes on with the next entry, every other
  error ends the walk of the directory and is returned.
\<close>

fun walk ::
  "host \<Rightarrow> int \<Rightarrow> string \<Rightarrow> string \<Rightarrow> fs_entry \<Rightarrow> string list \<Rightarrow> string list \<times> walk_error"
and walk_names ::
  "host \<Rightarrow> int \<Rightarrow> string \<Rightarrow> (string \<times> fs_entry) list \<Rightarrow> string list
    \<Rightarrow> string list \<times> walk_error"
where
  "walk h maxFiles path name LstatErr nodeFiles = visit maxFiles path [] False True nodeFiles"
| "walk h maxFiles path name NonDir nodeFiles = visit maxFiles path name False False nodeFiles"
| "walk h maxFiles path name DirUnreadable nodeFiles =
     visit maxFiles path name True True nodeFiles"
| "walk h maxFiles path name (Directory entries) nodeFiles =
     (case visit maxFiles path name True False nodeFiles of
        (nodeFiles', err1) \<Rightarrow>
          if err1 \<noteq> NoError then (nodeFiles', err1)
          else walk_names h maxFiles path entries nodeFiles')"
| "walk_names h maxFiles path [] nodeFiles = (nodeFiles, NoError)"
| "walk_names h maxFiles path ((name, entry) # rest) nodeFiles =
     (let filename = filepath_Join h [path, name] in
      case walk h maxFiles filename name entry nodeFiles of
        (nodeFiles', err) \<Rightarrow>
          if err \<noteq> NoError \<and>
             (if entry = LstatErr then err \<noteq> SkipDir
              else \<not> isDirectory entry \<or> err \<noteq> SkipDir)
          then (nodeFiles', err)
          else walk_names h maxFiles path rest nodeFiles')"

text \<open>
  \<^verbatim>\<open>filepath.Walk(root, fn)\<close>: the step at the root, whose \<^verbatim>\<open>info.Name()\<close> is the base
  name of the root; \<^verbatim>\<open>SkipDir\<close> at the root is not an error of the walk.
\<close>

definition filepath_Walk ::
  "host \<Rightarrow> int \<Rightarrow> string \<Rightarrow> string list \<Rightarrow> string list \<times> walk_error"
where
  "filepath_Walk h maxFiles root nodeFiles =
     (case walk h maxFiles root (filepath_Base h root) (walk_tree h root) nodeFiles of
        (nodeFiles', err) \<Rightarrow> (nodeFiles', if err = SkipDir then NoError else err))"

text \<open>The search roots of \<^verbatim>\<open>FindNodeFiles\<close>; \<open>None\<close> on an unsupported platform.\<close>

definition searchRoots :: "host \<Rightarrow> string \<Rightarrow> string list option" where
  "searchRoots h appPath =
     (if runtime_GOOS h = ''darwin'' then
        Some [filepath_Join h [appPath, ''Contents'', ''Resources''],
              filepath_Join h [appPath, ''Contents'', ''Frameworks'']]
      else if runtime_GOOS h = ''windows'' then
        (let dirPath = filepath_Dir h (windowsExePath h appPath) in
         Some [dirPath, filepath_Join h [dirPath, ''resources'']])
      else None)"

text \<open>
  The loop \<^verbatim>\<open>for _, root := range searchRoots { filepath.Walk(root, ...);
  if maxFiles > 0 && len(nodeFiles) >= maxFiles { break } }\<close>. Next to \<^verbatim>\<open>nodeFiles\<close>
  it returns the roots that were handed to \<^verbatim>\<open>filepath.Walk\<close>, in order (with
  \<^verbatim>\<open>verbose\<close>, the lines \<^verbatim>\<open>Searching for .node files in:\<close> of the output).
\<close>

fun searchLoop ::
  "host \<Rightarrow> int \<Rightarrow> string list \<Rightarrow> string list \<Rightarrow> string list \<Rightarrow> string list \<times> string list"
where
  "searchLoop h maxFiles [] nodeFiles searched = (nodeFiles, searched)"
| "searchLoop h maxFiles (root # roots) nodeFiles searched =
     (case filepath_Walk h maxFiles root nodeFiles of
        (nodeFiles', err) \<Rightarrow>
          if maxFiles > 0 \<and> int (length nodeFiles') \<ge> maxFiles
          then (nodeFiles', searched @ [root])
          else searchLoop h maxFiles roots nodeFiles' (searched @ [root]))"

definition FindNodeFiles :: "host \<Rightarrow> string \<Rightarrow> int \<Rightarrow> string list" where
  "FindNodeFiles h appPath maxFiles =
     (case searchRoots h appPath of
        None \<Rightarrow> []
      | Some roots \<Rightarrow> fst (searchLoop h maxFiles roots [] []))"

section \<open>The scan and its report (\<^verbatim>\<open>main.go\<close>)\<close>

text \<open>
  The body of the loop of \<^verbatim>\<open>main\<close> over the candidates, with the flags
  \<^verbatim>\<open>-node-files\<close> and \<^verbatim>\<open>-max-node-files\<close>.
\<close>

definition checkApp :: "host \<Rightarrow> bool \<Rightarrow> int \<Rightarrow> string \<Rightarrow> AppResult" where
  "checkApp h listNodeFiles maxNodeFiles app =
     (let result = CheckAsarIntegrityForApp h app in
      if listNodeFiles \<and> IsElectron result
      then result\<lparr>NodeFiles := FindNodeFiles h app maxNodeFiles\<rparr>
      else result)"

text \<open>
  \<^verbatim>\<open>main\<close> from its platform test on, for the candidates \<open>apps\<close> that
  \<^verbatim>\<open>ScanForElectronApps\<close> returned: \<open>None\<close> is the exit with status 1 on an
  unsupported platform, \<open>Some\<close> the results handed to the report.
\<close>

definition scanResults :: "host \<Rightarrow> bool \<Rightarrow> int \<Rightarrow> string list \<Rightarrow> AppResult list option" where
  "scanResults h listNodeFiles maxNodeFiles apps =
     (if runtime_GOOS h \<noteq> ''darwin'' \<and> runtime_GOOS h \<noteq> ''windows'' then None
      else Some (map (checkApp h listNodeFiles maxNodeFiles) apps))"

text \<open>
  The columns \<^verbatim>\<open>hasAsar\<close>, \<^verbatim>\<open>integrity\<close> and \<^verbatim>\<open>onlyLoad\<close> of a row of the summary
  table of \<^verbatim>\<open>outputResultsText\<close>.
\<close>

definition table_hasAsar :: "AppResult \<Rightarrow> string" where
  "table_hasAsar result = (if HasAsarFile result then ''Yes'' else ''No'')"








section \<open>Notions of the specification\<close>

text \<open>
  The confidence score as the specification words it: the number of the three baseline
  markers that occur in the content, plus 2 when the strong marker occurs.
\<close>

definition spec_score :: "string \<Rightarrow> int" where
  "spec_score content =
     int (length (filter (bytes_Contains content)
                    [''ElectronAsar'', ''Integrity'', ''sha256'']))
     + (if bytes_Contains content ''EnableEmbeddedAsarIntegrityValidation'' then 2 else 0)"


text \<open>
  The primary evidence file of the integrity check: the metadata file on macOS, the
  main executable on Windows.
\<close>

definition primaryEvidencePath :: "host \<Rightarrow> string \<Rightarrow> string" where
  "primaryEvidencePath h appPath =
     (if runtime_GOOS h = ''darwin''
      then filepath_Join h [appPath, ''Contents'', ''Info.plist'']
      else windowsExePath h appPath)"

text \<open>
  The main executable of a macOS bundle where \<^verbatim>\<open>checkAsarIntegrityMacos\<close> looks for
  it, and whether a file can be read and its bytes contain a marker.
\<close>

definition macosExecutablePath :: "host \<Rightarrow> string \<Rightarrow> string" where
  "macosExecutablePath h appPath =
     filepath_Join h
       [appPath, ''Contents'', ''MacOS'', filepath_Base h (TrimSuffix appPath ''.app'')]"

definition fileContains :: "host \<Rightarrow> string \<Rightarrow> string \<Rightarrow> bool" where
  "fileContains h path marker =
     (case os_ReadFile h path of Inl err \<Rightarrow> False | Inr content \<Rightarrow> bytes_Contains content marker)"

text \<open>
  The capture of the first pattern, in listed order, that matches the content; \<open>None\<close>
  when no pattern matches.
\<close>

definition firstCapture :: "re_item list list \<Rightarrow> string \<Rightarrow> string option" where
  "firstCapture regexes s =
     (case find (\<lambda>regex. length (FindStringSubmatch regex s) > 1) regexes of
        Some regex \<Rightarrow> Some (FindStringSubmatch regex s ! 1)
      | None \<Rightarrow> None)"

text \<open>
  The version of classifier rule 1 as the specification words it: the patterns on the
  content of the bundle's metadata file, and the content of the framework's metadata
  file only when they leave the version unresolved.
\<close>

definition spec_rule1_version :: "string \<Rightarrow> string \<Rightarrow> string" where
  "spec_rule1_version plistContent frameworkPlist =
     (case firstCapture versionRegexes plistContent of
        Some v \<Rightarrow> v
      | None \<Rightarrow>
          (case firstCapture versionRegexes frameworkPlist of
             Some v \<Rightarrow> v
           | None \<Rightarrow> ''unknown''))"

text \<open>
  The content of a file that exists and can be read, and the version of rule 1 as the
  code resolves it: the capture found in the framework's metadata file when that file is
  there and a pattern matches it, else the capture found in the bundle's metadata file,
  else \<^verbatim>\<open>unknown\<close>.
\<close>

definition readIfPresent :: "host \<Rightarrow> string \<Rightarrow> string option" where
  "readIfPresent h path =
     (if os_Stat h path = StatOK
      then (case os_ReadFile h path of Inl err \<Rightarrow> None | Inr content \<Rightarrow> Some content)
      else None)"

definition rule1_version :: "string \<Rightarrow> string option \<Rightarrow> string" where
  "rule1_version plistContent frameworkPlist =
     (case (case frameworkPlist of
              None \<Rightarrow> None
            | Some content \<Rightarrow> firstCapture versionRegexes content) of
        Some v \<Rightarrow> v
      | None \<Rightarrow>
          (case firstCapture versionRegexes plistContent of
             Some v \<Rightarrow> v
           | None \<Rightarrow> ''unknown''))"

text \<open>
  The files under a path whose lower-cased name ends in \<^verbatim>\<open>.node\<close>, in the order of
  the traversal: a directory's entries in their order, each subtree before the next
  entry. Entries that cannot be examined contribute nothing.
\<close>

fun nodeFilesUnder :: "host \<Rightarrow> string \<Rightarrow> string \<Rightarrow> fs_entry \<Rightarrow> string list"
and nodeFilesAmong :: "host \<Rightarrow> string \<Rightarrow> (string \<times> fs_entry) list \<Rightarrow> string list"
where
  "nodeFilesUnder h path name LstatErr = []"
| "nodeFilesUnder h path name NonDir =
     (if HasSuffix (ToLower name) ''.node'' then [path] else [])"
| "nodeFilesUnder h path name DirUnreadable = []"
| "nodeFilesUnder h path name (Directory entries) = nodeFilesAmong h path entries"
| "nodeFilesAmong h path [] = []"
| "nodeFilesAmong h path ((name, entry) # rest) =
     nodeFilesUnder h (filepath_Join h [path, name]) name entry @ nodeFilesAmong h path rest"

text \<open>
  The test \<^verbatim>\<open>maxFiles > 0 && len(nodeFiles) >= maxFiles\<close> of the cap, and a list cut
  at the cap (whole when \<^verbatim>\<open>maxFiles\<close> is not positive).
\<close>

definition capReached :: "int \<Rightarrow> string list \<Rightarrow> bool" where
  "capReached maxFiles nodeFiles = (maxFiles > 0 \<and> int (length nodeFiles) \<ge> maxFiles)"

definition upToCap :: "int \<Rightarrow> string list \<Rightarrow> string list" where
  "upToCap maxFiles nodeFiles = (if maxFiles > 0 then take (nat maxFiles) nodeFiles else nodeFiles)"

text \<open>The same for a search root, and for a list of roots one after the other.\<close>

definition nodeFilesOfRoot :: "host \<Rightarrow> string \<Rightarrow> string list" where
  "nodeFilesOfRoot h root = nodeFilesUnder h root (filepath_Base h root) (walk_tree h root)"

definition nodeFilesOfRoots :: "host \<Rightarrow> string list \<Rightarrow> string list" where
  "nodeFilesOfRoots h roots = concat (map (nodeFilesOfRoot h) roots)"

section \<open>Example hosts\<close>

text \<open>
  A small host for concrete runs: paths are joined with a slash, a listed path exists
  and reads as its entry says (\<open>Inr\<close> the content, \<open>Inl\<close> the error), any other path
  does not exist.
\<close>

fun example_Join :: "string list \<Rightarrow> string" where
  "example_Join [] = []"
| "example_Join [p] = p"
| "example_Join (p # q # ps) = p @ ''/'' @ example_Join (q # ps)"

definition example_Base :: "string \<Rightarrow> string" where
  "example_Base p = rev (takeWhile (\<lambda>c. c \<noteq> CHR ''/'') (rev p))"

definition example_Dir :: "string \<Rightarrow> string" where
  "example_Dir p = rev (drop 1 (dropWhile (\<lambda>c. c \<noteq> CHR ''/'') (rev p)))"

definition example_host ::
  "string \<Rightarrow> (string \<times> (string + string)) list \<Rightarrow> (string \<times> fs_entry) list \<Rightarrow> host"
where
  "example_host goos files trees =
     \<lparr>runtime_GOOS = goos,
      os_Stat = (\<lambda>p. case map_of files p of Some f \<Rightarrow> StatOK | None \<Rightarrow> ErrNotExist),
      os_ReadFile =
        (\<lambda>p. case map_of files p of
               Some f \<Rightarrow> f
             | None \<Rightarrow> Inl (''open '' @ p @ '': no such file or directory'')),
      filepath_Join = example_Join,
      filepath_Base = example_Base,
      filepath_Dir = example_Dir,
      walk_tree = (\<lambda>p. case map_of trees p of Some t \<Rightarrow> t | None \<Rightarrow> LstatErr)\<rparr>"

text \<open>
  A macOS bundle with the framework and the archive; its metadata file carries the
  application's own version and the integrity key without hash or algorithm keys, the
  framework's metadata file carries the runtime's version.
\<close>

definition mac_bundle :: "(string \<times> (string + string)) list" where
  "mac_bundle =
     [(''/Applications/Demo.app/Contents/Info.plist'',
       Inr ''<key>CFBundleVersion</key><string>1.2.3</string><key>ElectronAsarIntegrity</key>''),
      (''/Applications/Demo.app/Contents/Frameworks/Electron Framework.framework'',
       Inl ''is a directory''),
      (''/Applications/Demo.app/Contents/Frameworks/Electron Framework.framework/Resources/Info.plist'',
       Inr ''<key>CFBundleVersion</key><string>27.0.2</string>''),
      (''/Applications/Demo.app/Contents/Resources/app.asar'', Inr ''asar''),
      (''/Applications/Demo.app/Contents/MacOS/Demo'', Inr ''Mach-O'')]"

text \<open>The same bundle with a restriction marker in the metadata file only.\<close>

definition mac_bundle_restricted :: "(string \<times> (string + string)) list" where
  "mac_bundle_restricted =
     [(''/Applications/Demo.app/Contents/Info.plist'',
       Inr ''<key>ElectronVersion</key><string>27.0.2</string><key>OnlyLoadFromAsar</key>''),
      (''/Applications/Demo.app/Contents/Frameworks/Electron Framework.framework'',
       Inl ''is a directory''),
      (''/Applications/Demo.app/Contents/Resources/app.asar'', Inr ''asar''),
      (''/Applications/Demo.app/Contents/MacOS/Demo'', Inr ''Mach-O'')]"


text \<open>A bundle with the framework and the archive whose metadata file cannot be read.\<close>

definition mac_bundle_unreadable :: "(string \<times> (string + string)) list" where
  "mac_bundle_unreadable =
     [(''/Applications/Demo.app/Contents/Info.plist'', Inl ''permission denied''),
      (''/Applications/Demo.app/Contents/Frameworks/Electron Framework.framework'',
       Inl ''is a directory''),
      (''/Applications/Demo.app/Contents/Resources/app.asar'', Inr ''asar'')]"

text \<open>A Windows installation: the executable, with the given content, and the archive.\<close>

definition win_install :: "string \<Rightarrow> (string \<times> (string + string)) list" where
  "win_install exeContent =
     [(''C:/Apps/Demo/Demo.exe'', Inr exeContent),
      (''C:/Apps/Demo/resources'', Inl ''is a directory''),
      (''C:/Apps/Demo/resources/app.asar'', Inr ''asar'')]"

text \<open>The two search roots of the macOS bundle, with four native modules in all.\<close>

definition mac_trees :: "(string \<times> fs_entry) list" where
  "mac_trees =
     [(''/Applications/Demo.app/Contents/Resources'',
       Directory
         [(''a.node'', NonDir),
          (''app.asar'', NonDir),
          (''app.asar.unpacked'', Directory [(''B.NODE'', NonDir), (''c.txt'', NonDir)]),
          (''locked'', DirUnreadable),
          (''z.node'', NonDir)]),
      (''/Applications/Demo.app/Contents/Frameworks'',
       Directory [(''f.node'', NonDir)])]"

text \<open>An empty host: no path exists.\<close>

definition no_files :: "(string \<times> (string + string)) list" where
  "no_files = []"

section \<open>Substring facts\<close>

lemma HasPrefix_iff: "HasPrefix s p \<longleftrightarrow> (\<exists>t. s = p @ t)"
  by (induction s p rule: HasPrefix.induct) auto

text \<open>\<open>bytes_Contains\<close> is the substring relation.\<close>

lemma bytes_Contains_iff: "bytes_Contains s sub \<longleftrightarrow> (\<exists>ps ss. s = ps @ sub @ ss)"
proof (induction s)
  case Nil
  then show ?case by simp
next
  case (Cons c cs)
  show ?case
  proof
    assume "bytes_Contains (c # cs) sub"
    then consider "HasPrefix (c # cs) sub" | "bytes_Contains cs sub" by auto
    then show "\<exists>ps ss. c # cs = ps @ sub @ ss"
    proof cases
      case 1
      then obtain t where "c # cs = sub @ t" by (auto simp: HasPrefix_iff)
      then have "c # cs = [] @ sub @ t" by simp
      then show ?thesis by blast
    next
      case 2
      then obtain ps ss where "cs = ps @ sub @ ss" using Cons.IH by blast
      then have "c # cs = (c # ps) @ sub @ ss" by simp
      then show ?thesis by blast
    qed
  next
    assume "\<exists>ps ss. c # cs = ps @ sub @ ss"
    then obtain ps ss where e: "c # cs = ps @ sub @ ss" by blast
    show "bytes_Contains (c # cs) sub"
    proof (cases ps)
      case Nil
      with e have "HasPrefix (c # cs) sub" by (auto simp: HasPrefix_iff)
      then show ?thesis by simp
    next
      case (Cons a as)
      with e have "cs = as @ sub @ ss" by simp
      then have "bytes_Contains cs sub" using Cons.IH by blast
      then show ?thesis by simp
    qed
  qed
qed

lemma bytes_Contains_trans:
  assumes "bytes_Contains b a" and "bytes_Contains a sub"
  shows "bytes_Contains b sub"
proof -
  from assms(1) obtain p1 s1 where b: "b = p1 @ a @ s1" by (auto simp: bytes_Contains_iff)
  from assms(2) obtain p2 s2 where a: "a = p2 @ sub @ s2" by (auto simp: bytes_Contains_iff)
  have "b = (p1 @ p2) @ sub @ (s2 @ s1)" by (simp add: a b)
  then show ?thesis unfolding bytes_Contains_iff by blast
qed

section \<open>The classifier never fails on a supported platform\<close>

lemma isElectronAppMacos_no_error: "snd (snd (isElectronAppMacos h appPath)) = None"
  by (simp add: isElectronAppMacos_def Let_def split: sum.splits)

lemma isElectronAppWindows_no_error: "snd (snd (isElectronAppWindows h appPath)) = None"
  by (simp add: isElectronAppWindows_def Let_def split: sum.splits)

lemma IsElectronApp_positive:
  assumes "fst (IsElectronApp h appPath)"
  shows "IsElectronApp h appPath = (True, fst (snd (IsElectronApp h appPath)), None)"
proof -
  have "snd (snd (IsElectronApp h appPath)) = None"
    using assms
    by (auto simp: IsElectronApp_def isElectronAppMacos_no_error isElectronAppWindows_no_error
        split: if_splits)
  with assms show ?thesis by (cases "IsElectronApp h appPath") auto
qed

section \<open>The result of a bundle with an archive\<close>

lemma CheckAsarIntegrityForApp_windows:
  assumes "runtime_GOOS h = ''windows''"
    and "fst (IsElectronApp h appPath)" and "HasAsarFile_at h appPath"
    and "checkAsarIntegrityWindows h appPath = (hasIntegrity, onlyLoadFromAsar, err)"
  shows "CheckAsarIntegrityForApp h appPath =
           \<lparr>Path = appPath, IsElectron = True, Version = fst (snd (IsElectronApp h appPath)),
            HasAsarFile = True, AsarIntegrity = hasIntegrity,
            OnlyLoadFromAsar = onlyLoadFromAsar, NodeFiles = [],
            IntegrityError = (case err of None \<Rightarrow> [] | Some e \<Rightarrow> e)\<rparr>"
  using assms(1,3,4) IsElectronApp_positive[OF assms(2)]
  by (cases "IsElectronApp h appPath")
     (simp add: CheckAsarIntegrityForApp_def Let_def split: option.splits)

lemma CheckAsarIntegrityForApp_darwin:
  assumes "runtime_GOOS h = ''darwin''"
    and "fst (IsElectronApp h appPath)" and "HasAsarFile_at h appPath"
    and "checkAsarIntegrityMacos h appPath = (hasIntegrity, onlyLoadFromAsar, err)"
  shows "CheckAsarIntegrityForApp h appPath =
           \<lparr>Path = appPath, IsElectron = True, Version = fst (snd (IsElectronApp h appPath)),
            HasAsarFile = True, AsarIntegrity = hasIntegrity,
            OnlyLoadFromAsar = onlyLoadFromAsar, NodeFiles = [],
            IntegrityError = (case err of None \<Rightarrow> [] | Some e \<Rightarrow> e)\<rparr>"
  using assms(1,3,4) IsElectronApp_positive[OF assms(2)]
  by (cases "IsElectronApp h appPath")
     (simp add: CheckAsarIntegrityForApp_def Let_def split: option.splits)

section \<open>The Windows check\<close>

lemma findSignature_iff: "findSignature content sigs \<longleftrightarrow> (\<exists>sig \<in> set sigs. bytes_Contains content sig)"
  by (induction sigs) auto

lemma checkAsarIntegrityWindows_readable:
  assumes "os_ReadFile h (windowsExePath h appPath) = Inr exeContent"
  shows "checkAsarIntegrityWindows h appPath =
           (2 \<le> matchCount exeContent,
            bytes_Contains exeContent ''OnlyLoadAppFromAsar'' \<or>
            bytes_Contains exeContent ''OnlyLoadFromAsar'' \<or>
            bytes_Contains exeContent ''FuseV1Options.OnlyLoadAppFromAsar'',
            None)"
  using assms by (simp add: checkAsarIntegrityWindows_def Let_def)

lemma matchCount_eq_spec_score: "matchCount content = spec_score content"
  by (simp add: matchCount_def spec_score_def asarIntegritySignatures_def)

lemma countSignatures_mono:
  assumes "\<And>sig. bytes_Contains a sig \<Longrightarrow> bytes_Contains b sig" and "m \<le> n"
  shows "countSignatures a sigs m \<le> countSignatures b sigs n"
  using assms(2)
proof (induction sigs arbitrary: m n)
  case Nil
  then show ?case by simp
next
  case (Cons s sigs)
  show ?case
    using Cons.prems assms(1)[of s] by (auto intro!: Cons.IH)
qed

lemma matchCount_mono:
  assumes "bytes_Contains b a"
  shows "matchCount a \<le> matchCount b"
proof -
  have sub: "\<And>sig. bytes_Contains a sig \<Longrightarrow> bytes_Contains b sig"
    using assms bytes_Contains_trans by blast
  have "countSignatures a asarIntegritySignatures 0
          \<le> countSignatures b asarIntegritySignatures 0"
    by (rule countSignatures_mono) (auto intro: sub)
  then show ?thesis
    using sub[of "''EnableEmbeddedAsarIntegrityValidation''"]
    by (auto simp: matchCount_def Let_def)
qed

lemma strong_marker_contains_Integrity:
  "bytes_Contains ''EnableEmbeddedAsarIntegrityValidation'' ''Integrity''"
  by simp

text \<open>
  C1. On Windows, when the executable can be read, the integrity verdict of
  \<^verbatim>\<open>checkAsarIntegrityWindows\<close> is true exactly when the score is at least 2, the
  score being the number of the markers \<^verbatim>\<open>ElectronAsar\<close>, \<^verbatim>\<open>Integrity\<close> and
  \<^verbatim>\<open>sha256\<close> that occur in the content plus 2 when
  \<^verbatim>\<open>EnableEmbeddedAsarIntegrityValidation\<close> occurs; for a bundle of the runtime with an
  archive, the field \<^verbatim>\<open>AsarIntegrity\<close> of the result is that verdict.
\<close>

theorem windows_integrity_iff_score:
  assumes "os_ReadFile h (windowsExePath h appPath) = Inr exeContent"
  shows "fst (checkAsarIntegrityWindows h appPath) = (2 \<le> spec_score exeContent) \<and>
         (runtime_GOOS h = ''windows'' \<and> fst (IsElectronApp h appPath) \<and>
          HasAsarFile_at h appPath \<longrightarrow>
            AsarIntegrity (CheckAsarIntegrityForApp h appPath) = (2 \<le> spec_score exeContent))"
proof -
  note r = checkAsarIntegrityWindows_readable[OF assms]
  have "fst (checkAsarIntegrityWindows h appPath) = (2 \<le> spec_score exeContent)"
    by (simp add: r matchCount_eq_spec_score)
  moreover have "AsarIntegrity (CheckAsarIntegrityForApp h appPath) = (2 \<le> spec_score exeContent)"
    if "runtime_GOOS h = ''windows''" "fst (IsElectronApp h appPath)" "HasAsarFile_at h appPath"
    using CheckAsarIntegrityForApp_windows[OF that r] by (simp add: matchCount_eq_spec_score)
  ultimately show ?thesis by blast
qed

text \<open>
  The third end-to-end scenario: \<^verbatim>\<open>sha256\<close> and \<^verbatim>\<open>Integrity\<close> without the strong
  marker give the score 2 and the verdict true.
\<close>

theorem windows_integrity_iff_score_witness:
  "os_ReadFile (example_host ''windows'' (win_install ''MZ sha256 Integrity'') [])
     (windowsExePath (example_host ''windows'' (win_install ''MZ sha256 Integrity'') [])
        ''C:/Apps/Demo/Demo.exe'') = Inr ''MZ sha256 Integrity'' \<and>
   spec_score ''MZ sha256 Integrity'' = 2 \<and>
   fst (checkAsarIntegrityWindows
          (example_host ''windows'' (win_install ''MZ sha256 Integrity'') [])
          ''C:/Apps/Demo/Demo.exe'') \<and>
   runtime_GOOS (example_host ''windows'' (win_install ''MZ sha256 Integrity'') []) = ''windows'' \<and>
   fst (IsElectronApp (example_host ''windows'' (win_install ''MZ sha256 Integrity'') [])
          ''C:/Apps/Demo/Demo.exe'') \<and>
   HasAsarFile_at (example_host ''windows'' (win_install ''MZ sha256 Integrity'') [])
     ''C:/Apps/Demo/Demo.exe'' \<and>
   AsarIntegrity (CheckAsarIntegrityForApp
                    (example_host ''windows'' (win_install ''MZ sha256 Integrity'') [])
                    ''C:/Apps/Demo/Demo.exe'')"
proof -
  let ?h = "example_host ''windows'' (win_install ''MZ sha256 Integrity'') []"
  let ?app = "''C:/Apps/Demo/Demo.exe''"
  have readable: "os_ReadFile ?h (windowsExePath ?h ?app) = Inr ''MZ sha256 Integrity''"
    by code_simp
  have score: "spec_score ''MZ sha256 Integrity'' = 2"
    by code_simp
  have facts: "runtime_GOOS ?h = ''windows''" "fst (IsElectronApp ?h ?app)"
    "HasAsarFile_at ?h ?app"
    by code_simp+
  from windows_integrity_iff_score[OF readable] score facts readable
  show ?thesis by simp
qed

text \<open>With one of the two markers removed the score is 1 and the verdict false.\<close>

lemma windows_integrity_one_marker:
  "spec_score ''MZ sha256'' = 1 \<and>
   \<not> fst (checkAsarIntegrityWindows (example_host ''windows'' (win_install ''MZ sha256'') [])
            ''C:/Apps/Demo/Demo.exe'')"
  by code_simp

text \<open>
  C8. The Windows score is monotone in the executable content: when the content \<open>B\<close>
  contains the content \<open>A\<close> as a substring the score of \<open>B\<close> is at least the score of
  \<open>A\<close>, and an integrity verdict that is true for \<open>A\<close> is true for \<open>B\<close>.
\<close>

theorem windows_score_monotone:
  assumes "bytes_Contains B A"
    and "os_ReadFile hA (windowsExePath hA appA) = Inr A"
    and "os_ReadFile hB (windowsExePath hB appB) = Inr B"
  shows "matchCount A \<le> matchCount B \<and>
         (fst (checkAsarIntegrityWindows hA appA) \<longrightarrow> fst (checkAsarIntegrityWindows hB appB))"
  using matchCount_mono[OF assms(1)]
  by (simp add: checkAsarIntegrityWindows_readable[OF assms(2)]
      checkAsarIntegrityWindows_readable[OF assms(3)])

theorem windows_score_monotone_witness:
  "bytes_Contains ''MZ sha256 Integrity ElectronAsar'' ''sha256 Integrity'' \<and>
   os_ReadFile (example_host ''windows'' (win_install ''sha256 Integrity'') [])
     (windowsExePath (example_host ''windows'' (win_install ''sha256 Integrity'') [])
        ''C:/Apps/Demo/Demo.exe'') = Inr ''sha256 Integrity'' \<and>
   os_ReadFile (example_host ''windows'' (win_install ''MZ sha256 Integrity ElectronAsar'') [])
     (windowsExePath
        (example_host ''windows'' (win_install ''MZ sha256 Integrity ElectronAsar'') [])
        ''C:/Apps/Demo/Demo.exe'') = Inr ''MZ sha256 Integrity ElectronAsar'' \<and>
   matchCount ''sha256 Integrity'' = 2 \<and>
   matchCount ''MZ sha256 Integrity ElectronAsar'' = 3 \<and>
   fst (checkAsarIntegrityWindows (example_host ''windows'' (win_install ''sha256 Integrity'') [])
          ''C:/Apps/Demo/Demo.exe'') \<and>
   fst (checkAsarIntegrityWindows
          (example_host ''windows'' (win_install ''MZ sha256 Integrity ElectronAsar'') [])
          ''C:/Apps/Demo/Demo.exe'')"
proof -
  let ?A = "''sha256 Integrity''"
  let ?B = "''MZ sha256 Integrity ElectronAsar''"
  let ?hA = "example_host ''windows'' (win_install ?A) []"
  let ?hB = "example_host ''windows'' (win_install ?B) []"
  let ?app = "''C:/Apps/Demo/Demo.exe''"
  have sub: "bytes_Contains ?B ?A" by code_simp
  have rA: "os_ReadFile ?hA (windowsExePath ?hA ?app) = Inr ?A" by code_simp
  have rB: "os_ReadFile ?hB (windowsExePath ?hB ?app) = Inr ?B" by code_simp
  have counts: "matchCount ?A = 2" "matchCount ?B = 3" by code_simp+
  have vA: "fst (checkAsarIntegrityWindows ?hA ?app)" by code_simp
  from windows_score_monotone[OF sub rA rB] sub rA rB counts vA
  show ?thesis by simp
qed

text \<open>
  C10. On Windows, when the executable can be read and contains
  \<^verbatim>\<open>EnableEmbeddedAsarIntegrityValidation\<close>, the score is at least 3, because the
  marker \<^verbatim>\<open>Integrity\<close> is a substring of it, and the integrity verdict is true.
\<close>

theorem windows_strong_marker_suffices:
  assumes "os_ReadFile h (windowsExePath h appPath) = Inr exeContent"
    and "bytes_Contains exeContent ''EnableEmbeddedAsarIntegrityValidation''"
  shows "3 \<le> matchCount exeContent \<and> fst (checkAsarIntegrityWindows h appPath)"
proof -
  have "bytes_Contains exeContent ''Integrity''"
    using bytes_Contains_trans[OF assms(2) strong_marker_contains_Integrity] .
  then have "3 \<le> matchCount exeContent"
    using assms(2) by (simp add: matchCount_def asarIntegritySignatures_def)
  then show ?thesis
    by (simp add: checkAsarIntegrityWindows_readable[OF assms(1)])
qed

theorem windows_strong_marker_suffices_witness:
  "os_ReadFile
     (example_host ''windows'' (win_install ''MZ EnableEmbeddedAsarIntegrityValidation'') [])
     (windowsExePath
        (example_host ''windows'' (win_install ''MZ EnableEmbeddedAsarIntegrityValidation'') [])
        ''C:/Apps/Demo/Demo.exe'') = Inr ''MZ EnableEmbeddedAsarIntegrityValidation'' \<and>
   bytes_Contains ''MZ EnableEmbeddedAsarIntegrityValidation''
     ''EnableEmbeddedAsarIntegrityValidation'' \<and>
   matchCount ''MZ EnableEmbeddedAsarIntegrityValidation'' = 3 \<and>
   fst (checkAsarIntegrityWindows
          (example_host ''windows'' (win_install ''MZ EnableEmbeddedAsarIntegrityValidation'') [])
          ''C:/Apps/Demo/Demo.exe'')"
proof -
  let ?c = "''MZ EnableEmbeddedAsarIntegrityValidation''"
  let ?h = "example_host ''windows'' (win_install ?c) []"
  let ?app = "''C:/Apps/Demo/Demo.exe''"
  have readable: "os_ReadFile ?h (windowsExePath ?h ?app) = Inr ?c" by code_simp
  have strong: "bytes_Contains ?c ''EnableEmbeddedAsarIntegrityValidation''" by code_simp
  have count: "matchCount ?c = 3" by code_simp
  from windows_strong_marker_suffices[OF readable strong] readable strong count
  show ?thesis by simp
qed

section \<open>The macOS check\<close>

lemma checkAsarIntegrityMacos_readable:
  assumes "os_ReadFile h (filepath_Join h [appPath, ''Contents'', ''Info.plist'']) = Inr plistContent"
  shows "checkAsarIntegrityMacos h appPath =
           (bytes_Contains plistContent ''<key>ElectronAsarIntegrity</key>'',
            (os_Stat h (macosExecutablePath h appPath) = StatOK \<and>
             fileContains h (macosExecutablePath h appPath) ''OnlyLoadAppFromAsar'') \<or>
            bytes_Contains plistContent ''OnlyLoadAppFromAsar'' \<or>
            bytes_Contains plistContent ''OnlyLoadFromAsar'' \<or>
            bytes_Contains plistContent ''FuseV1Options.OnlyLoadAppFromAsar'',
            None)"
  using assms
  by (auto simp: checkAsarIntegrityMacos_def Let_def macosExecutablePath_def fileContains_def
      split: sum.splits)

text \<open>
  C2. On macOS, when the metadata file can be read and contains
  \<^verbatim>\<open><key>ElectronAsarIntegrity</key>\<close>, the integrity verdict is true, whether or not
  the hash and algorithm keys occur; for a bundle of the runtime with an archive the
  field \<^verbatim>\<open>AsarIntegrity\<close> of the result is true.
\<close>

theorem macos_integrity_key_suffices:
  assumes "os_ReadFile h (filepath_Join h [appPath, ''Contents'', ''Info.plist'']) = Inr plistContent"
    and "bytes_Contains plistContent ''<key>ElectronAsarIntegrity</key>''"
  shows "fst (checkAsarIntegrityMacos h appPath) \<and>
         (runtime_GOOS h = ''darwin'' \<and> fst (IsElectronApp h appPath) \<and>
          HasAsarFile_at h appPath \<longrightarrow>
            AsarIntegrity (CheckAsarIntegrityForApp h appPath))"
proof -
  note r = checkAsarIntegrityMacos_readable[OF assms(1)]
  have "fst (checkAsarIntegrityMacos h appPath)"
    by (simp add: r assms(2))
  moreover have "AsarIntegrity (CheckAsarIntegrityForApp h appPath)"
    if "runtime_GOOS h = ''darwin''" "fst (IsElectronApp h appPath)" "HasAsarFile_at h appPath"
    using CheckAsarIntegrityForApp_darwin[OF that r] by (simp add: assms(2))
  ultimately show ?thesis by blast
qed

text \<open>
  The second end-to-end scenario: the integrity key without hash and algorithm keys.
\<close>

theorem macos_integrity_key_suffices_witness:
  "os_ReadFile (example_host ''darwin'' mac_bundle [])
     (filepath_Join (example_host ''darwin'' mac_bundle [])
        [''/Applications/Demo.app'', ''Contents'', ''Info.plist'']) =
     Inr ''<key>CFBundleVersion</key><string>1.2.3</string><key>ElectronAsarIntegrity</key>'' \<and>
   bytes_Contains
     ''<key>CFBundleVersion</key><string>1.2.3</string><key>ElectronAsarIntegrity</key>''
     ''<key>ElectronAsarIntegrity</key>'' \<and>
   \<not> bytes_Contains
     ''<key>CFBundleVersion</key><string>1.2.3</string><key>ElectronAsarIntegrity</key>''
     ''<key>hash</key>'' \<and>
   \<not> bytes_Contains
     ''<key>CFBundleVersion</key><string>1.2.3</string><key>ElectronAsarIntegrity</key>''
     ''<key>algorithm</key>'' \<and>
   fst (checkAsarIntegrityMacos (example_host ''darwin'' mac_bundle []) ''/Applications/Demo.app'') \<and>
   runtime_GOOS (example_host ''darwin'' mac_bundle []) = ''darwin'' \<and>
   fst (IsElectronApp (example_host ''darwin'' mac_bundle []) ''/Applications/Demo.app'') \<and>
   HasAsarFile_at (example_host ''darwin'' mac_bundle []) ''/Applications/Demo.app'' \<and>
   AsarIntegrity
     (CheckAsarIntegrityForApp (example_host ''darwin'' mac_bundle []) ''/Applications/Demo.app'')"
proof -
  let ?h = "example_host ''darwin'' mac_bundle []"
  let ?app = "''/Applications/Demo.app''"
  let ?c = "''<key>CFBundleVersion</key><string>1.2.3</string><key>ElectronAsarIntegrity</key>''"
  have readable: "os_ReadFile ?h (filepath_Join ?h [?app, ''Contents'', ''Info.plist'']) = Inr ?c"
    by code_simp
  have key: "bytes_Contains ?c ''<key>ElectronAsarIntegrity</key>''" by code_simp
  have nokeys: "\<not> bytes_Contains ?c ''<key>hash</key>''"
    "\<not> bytes_Contains ?c ''<key>algorithm</key>''"
    by code_simp+
  have facts: "runtime_GOOS ?h = ''darwin''" "fst (IsElectronApp ?h ?app)"
    "HasAsarFile_at ?h ?app"
    by code_simp+
  from macos_integrity_key_suffices[OF readable key] readable key nokeys facts
  show ?thesis by simp
qed

text \<open>
  C5. The native-load restriction is an OR over marker signals. On macOS, when the
  metadata file can be read, the verdict is true exactly when the main executable
  exists, can be read and contains \<^verbatim>\<open>OnlyLoadAppFromAsar\<close>, or one of the three
  spellings occurs in the metadata file. On Windows, when the executable can be read,
  the verdict is true exactly when \<^verbatim>\<open>OnlyLoadAppFromAsar\<close> or one of the three
  spellings occurs in the executable. So one spelling alone gives true.
\<close>

theorem native_load_restriction_is_or:
  "(os_ReadFile h (filepath_Join h [appPath, ''Contents'', ''Info.plist'']) = Inr plistContent \<longrightarrow>
      fst (snd (checkAsarIntegrityMacos h appPath)) =
        ((os_Stat h (macosExecutablePath h appPath) = StatOK \<and>
          fileContains h (macosExecutablePath h appPath) ''OnlyLoadAppFromAsar'') \<or>
         bytes_Contains plistContent ''OnlyLoadAppFromAsar'' \<or>
         bytes_Contains plistContent ''OnlyLoadFromAsar'' \<or>
         bytes_Contains plistContent ''FuseV1Options.OnlyLoadAppFromAsar'')) \<and>
   (os_ReadFile hw (windowsExePath hw exeApp) = Inr exeContent \<longrightarrow>
      fst (snd (checkAsarIntegrityWindows hw exeApp)) =
        (bytes_Contains exeContent ''OnlyLoadAppFromAsar'' \<or>
         bytes_Contains exeContent ''OnlyLoadAppFromAsar'' \<or>
         bytes_Contains exeContent ''OnlyLoadFromAsar'' \<or>
         bytes_Contains exeContent ''FuseV1Options.OnlyLoadAppFromAsar''))"
  by (simp add: checkAsarIntegrityMacos_readable checkAsarIntegrityWindows_readable)

text \<open>
  Exactly one spelling, \<^verbatim>\<open>OnlyLoadFromAsar\<close>, in the metadata file (macOS) and in the
  executable (Windows).
\<close>

theorem native_load_restriction_is_or_witness:
  "os_ReadFile (example_host ''darwin'' mac_bundle_restricted [])
     (filepath_Join (example_host ''darwin'' mac_bundle_restricted [])
        [''/Applications/Demo.app'', ''Contents'', ''Info.plist'']) =
     Inr ''<key>ElectronVersion</key><string>27.0.2</string><key>OnlyLoadFromAsar</key>'' \<and>
   \<not> fileContains (example_host ''darwin'' mac_bundle_restricted [])
       (macosExecutablePath (example_host ''darwin'' mac_bundle_restricted [])
          ''/Applications/Demo.app'')
       ''OnlyLoadAppFromAsar'' \<and>
   \<not> bytes_Contains
       ''<key>ElectronVersion</key><string>27.0.2</string><key>OnlyLoadFromAsar</key>''
       ''OnlyLoadAppFromAsar'' \<and>
   bytes_Contains
     ''<key>ElectronVersion</key><string>27.0.2</string><key>OnlyLoadFromAsar</key>''
     ''OnlyLoadFromAsar'' \<and>
   fst (snd (checkAsarIntegrityMacos (example_host ''darwin'' mac_bundle_restricted [])
               ''/Applications/Demo.app'')) \<and>
   os_ReadFile (example_host ''windows'' (win_install ''MZ OnlyLoadFromAsar'') [])
     (windowsExePath (example_host ''windows'' (win_install ''MZ OnlyLoadFromAsar'') [])
        ''C:/Apps/Demo/Demo.exe'') = Inr ''MZ OnlyLoadFromAsar'' \<and>
   \<not> bytes_Contains ''MZ OnlyLoadFromAsar'' ''OnlyLoadAppFromAsar'' \<and>
   bytes_Contains ''MZ OnlyLoadFromAsar'' ''OnlyLoadFromAsar'' \<and>
   fst (snd (checkAsarIntegrityWindows
               (example_host ''windows'' (win_install ''MZ OnlyLoadFromAsar'') [])
               ''C:/Apps/Demo/Demo.exe''))"
proof -
  let ?hm = "example_host ''darwin'' mac_bundle_restricted []"
  let ?am = "''/Applications/Demo.app''"
  let ?pc = "''<key>ElectronVersion</key><string>27.0.2</string><key>OnlyLoadFromAsar</key>''"
  let ?hw = "example_host ''windows'' (win_install ''MZ OnlyLoadFromAsar'') []"
  let ?aw = "''C:/Apps/Demo/Demo.exe''"
  have rm: "os_ReadFile ?hm (filepath_Join ?hm [?am, ''Contents'', ''Info.plist'']) = Inr ?pc"
    by code_simp
  have rw: "os_ReadFile ?hw (windowsExePath ?hw ?aw) = Inr ''MZ OnlyLoadFromAsar''"
    by code_simp
  have m: "\<not> fileContains ?hm (macosExecutablePath ?hm ?am) ''OnlyLoadAppFromAsar''"
    "\<not> bytes_Contains ?pc ''OnlyLoadAppFromAsar''"
    "bytes_Contains ?pc ''OnlyLoadFromAsar''"
    by code_simp+
  have w: "\<not> bytes_Contains ''MZ OnlyLoadFromAsar'' ''OnlyLoadAppFromAsar''"
    "bytes_Contains ''MZ OnlyLoadFromAsar'' ''OnlyLoadFromAsar''"
    by code_simp+
  from native_load_restriction_is_or[of ?hm ?am ?pc ?hw ?aw "''MZ OnlyLoadFromAsar''"]
    rm rw m w
  show ?thesis by simp
qed

section \<open>The result of a candidate\<close>

lemma isElectronAppMacos_negative:
  "\<not> fst (isElectronAppMacos h appPath) \<Longrightarrow> fst (snd (isElectronAppMacos h appPath)) = []"
  by (simp add: isElectronAppMacos_def Let_def split: if_splits sum.splits)

lemma isElectronAppWindows_negative:
  "\<not> fst (isElectronAppWindows h appPath) \<Longrightarrow> fst (snd (isElectronAppWindows h appPath)) = []"
  by (simp add: isElectronAppWindows_def Let_def split: if_splits sum.splits)

lemma IsElectronApp_negative:
  "\<not> fst (IsElectronApp h appPath) \<Longrightarrow> fst (snd (IsElectronApp h appPath)) = []"
  by (auto simp: IsElectronApp_def isElectronAppMacos_negative isElectronAppWindows_negative
      split: if_splits)

lemma CheckAsarIntegrityForApp_error:
  assumes "IsElectronApp h appPath = (isElectron, version, Some err)"
  shows "CheckAsarIntegrityForApp h appPath =
           \<lparr>Path = appPath, IsElectron = False, Version = [], HasAsarFile = False,
            AsarIntegrity = False, OnlyLoadFromAsar = False, NodeFiles = [],
            IntegrityError = err\<rparr>"
  using assms by (simp add: CheckAsarIntegrityForApp_def)

lemma CheckAsarIntegrityForApp_negative:
  assumes "IsElectronApp h appPath = (False, version, None)"
  shows "CheckAsarIntegrityForApp h appPath =
           \<lparr>Path = appPath, IsElectron = False, Version = version, HasAsarFile = False,
            AsarIntegrity = False, OnlyLoadFromAsar = False, NodeFiles = [],
            IntegrityError = []\<rparr>"
  using assms by (simp add: CheckAsarIntegrityForApp_def)

lemma CheckAsarIntegrityForApp_no_archive:
  assumes "IsElectronApp h appPath = (True, version, None)" and "\<not> HasAsarFile_at h appPath"
  shows "CheckAsarIntegrityForApp h appPath =
           \<lparr>Path = appPath, IsElectron = True, Version = version, HasAsarFile = False,
            AsarIntegrity = False, OnlyLoadFromAsar = False, NodeFiles = [],
            IntegrityError = []\<rparr>"
  using assms by (simp add: CheckAsarIntegrityForApp_def)

lemma CheckAsarIntegrityForApp_archive:
  assumes "IsElectronApp h appPath = (True, version, None)" and "HasAsarFile_at h appPath"
  shows "IsElectron (CheckAsarIntegrityForApp h appPath) \<and>
         HasAsarFile (CheckAsarIntegrityForApp h appPath)"
  using assms
  by (simp add: CheckAsarIntegrityForApp_def Let_def split: prod.splits option.splits)

lemma CheckAsarIntegrityForApp_cases:
  obtains (error) isElectron version err where
      "IsElectronApp h appPath = (isElectron, version, Some err)"
  | (negative) version where "IsElectronApp h appPath = (False, version, None)"
  | (no_archive) version where
      "IsElectronApp h appPath = (True, version, None)" "\<not> HasAsarFile_at h appPath"
  | (archive) version where
      "IsElectronApp h appPath = (True, version, None)" "HasAsarFile_at h appPath"
proof (cases "IsElectronApp h appPath")
  case (fields isElectron version err)
  then show ?thesis
    by (cases err; cases isElectron; cases "HasAsarFile_at h appPath")
       (auto intro: error negative no_archive archive)
qed

lemma checkApp_fields:
  "IsElectron (checkApp h listNodeFiles maxNodeFiles app) = IsElectron (CheckAsarIntegrityForApp h app)"
  "Version (checkApp h listNodeFiles maxNodeFiles app) = Version (CheckAsarIntegrityForApp h app)"
  "HasAsarFile (checkApp h listNodeFiles maxNodeFiles app) = HasAsarFile (CheckAsarIntegrityForApp h app)"
  "AsarIntegrity (checkApp h listNodeFiles maxNodeFiles app) = AsarIntegrity (CheckAsarIntegrityForApp h app)"
  "OnlyLoadFromAsar (checkApp h listNodeFiles maxNodeFiles app) = OnlyLoadFromAsar (CheckAsarIntegrityForApp h app)"
  "IntegrityError (checkApp h listNodeFiles maxNodeFiles app) = IntegrityError (CheckAsarIntegrityForApp h app)"
  by (simp_all add: checkApp_def Let_def)

lemma CheckAsarIntegrityForApp_NodeFiles: "NodeFiles (CheckAsarIntegrityForApp h app) = []"
  by (cases h app rule: CheckAsarIntegrityForApp_cases)
     (simp_all add: CheckAsarIntegrityForApp_error CheckAsarIntegrityForApp_negative
        CheckAsarIntegrityForApp_no_archive,
      simp add: CheckAsarIntegrityForApp_def Let_def split: prod.splits option.splits)





text \<open>
  C9. For every candidate, on every host, when the result has \<^verbatim>\<open>IsElectron\<close> false
  its version is the empty string, and \<^verbatim>\<open>HasAsarFile\<close>, \<^verbatim>\<open>AsarIntegrity\<close>,
  \<^verbatim>\<open>OnlyLoadFromAsar\<close> are false and \<^verbatim>\<open>NodeFiles\<close> is empty.
\<close>

theorem non_runtime_defaults:
  assumes "\<not> IsElectron (checkApp h listNodeFiles maxNodeFiles app)"
  shows "Version (checkApp h listNodeFiles maxNodeFiles app) = [] \<and>
         \<not> HasAsarFile (checkApp h listNodeFiles maxNodeFiles app) \<and>
         \<not> AsarIntegrity (checkApp h listNodeFiles maxNodeFiles app) \<and>
         \<not> OnlyLoadFromAsar (checkApp h listNodeFiles maxNodeFiles app) \<and>
         NodeFiles (checkApp h listNodeFiles maxNodeFiles app) = []"
proof -
  from assms have n: "\<not> IsElectron (CheckAsarIntegrityForApp h app)"
    by (simp add: checkApp_fields)
  then have nf: "NodeFiles (checkApp h listNodeFiles maxNodeFiles app) = []"
    by (simp add: checkApp_def Let_def CheckAsarIntegrityForApp_NodeFiles)
  have "Version (CheckAsarIntegrityForApp h app) = [] \<and>
        \<not> HasAsarFile (CheckAsarIntegrityForApp h app) \<and>
        \<not> AsarIntegrity (CheckAsarIntegrityForApp h app) \<and>
        \<not> OnlyLoadFromAsar (CheckAsarIntegrityForApp h app)"
  proof (cases h app rule: CheckAsarIntegrityForApp_cases)
    case (error isElectron version err)
    then show ?thesis by (simp add: CheckAsarIntegrityForApp_error)
  next
    case (negative version)
    then have "version = []" using IsElectronApp_negative[of h app] by simp
    with negative show ?thesis by (simp add: CheckAsarIntegrityForApp_negative)
  next
    case (no_archive version)
    with n show ?thesis by (simp add: CheckAsarIntegrityForApp_no_archive)
  next
    case (archive version)
    with n show ?thesis using CheckAsarIntegrityForApp_archive[OF archive] by simp
  qed
  with nf show ?thesis by (simp add: checkApp_fields)
qed


lemma checkAsarIntegrityMacos_unreadable:
  assumes "os_ReadFile h (filepath_Join h [appPath, ''Contents'', ''Info.plist'']) = Inl msg"
  shows "checkAsarIntegrityMacos h appPath = (False, False, Some (''error reading Info.plist: '' @ msg))"
  using assms by (simp add: checkAsarIntegrityMacos_def Let_def)

lemma checkAsarIntegrityWindows_unreadable:
  assumes "os_ReadFile h (windowsExePath h appPath) = Inl msg"
  shows "checkAsarIntegrityWindows h appPath = (False, False, Some (''error reading executable: '' @ msg))"
  using assms by (simp add: checkAsarIntegrityWindows_def Let_def)

lemma IsElectronApp_supported_no_error:
  assumes "runtime_GOOS h = ''darwin'' \<or> runtime_GOOS h = ''windows''"
  shows "snd (snd (IsElectronApp h appPath)) = None"
  using assms
  by (auto simp: IsElectronApp_def isElectronAppMacos_no_error isElectronAppWindows_no_error)

lemma archive_result_darwin:
  assumes "runtime_GOOS h = ''darwin''"
    and "IsElectronApp h appPath = (True, version, None)" and "HasAsarFile_at h appPath"
  shows "(IntegrityError (CheckAsarIntegrityForApp h appPath) \<noteq> [] \<longleftrightarrow>
            isl (os_ReadFile h (primaryEvidencePath h appPath))) \<and>
         (isl (os_ReadFile h (primaryEvidencePath h appPath)) \<longrightarrow>
            \<not> AsarIntegrity (CheckAsarIntegrityForApp h appPath) \<and>
            \<not> OnlyLoadFromAsar (CheckAsarIntegrityForApp h appPath))"
proof -
  have e: "fst (IsElectronApp h appPath)" using assms(2) by simp
  let ?p = "filepath_Join h [appPath, ''Contents'', ''Info.plist'']"
  have p: "primaryEvidencePath h appPath = ?p"
    by (simp add: primaryEvidencePath_def assms(1))
  show ?thesis
  proof (cases "os_ReadFile h ?p")
    case (Inl msg)
    from CheckAsarIntegrityForApp_darwin[OF assms(1) e assms(3)
        checkAsarIntegrityMacos_unreadable[OF Inl]]
    show ?thesis by (simp add: p Inl)
  next
    case (Inr plistContent)
    from CheckAsarIntegrityForApp_darwin[OF assms(1) e assms(3)
        checkAsarIntegrityMacos_readable[OF Inr]]
    show ?thesis by (simp add: p Inr)
  qed
qed

lemma archive_result_windows:
  assumes "runtime_GOOS h = ''windows''"
    and "IsElectronApp h appPath = (True, version, None)" and "HasAsarFile_at h appPath"
  shows "(IntegrityError (CheckAsarIntegrityForApp h appPath) \<noteq> [] \<longleftrightarrow>
            isl (os_ReadFile h (primaryEvidencePath h appPath))) \<and>
         (isl (os_ReadFile h (primaryEvidencePath h appPath)) \<longrightarrow>
            \<not> AsarIntegrity (CheckAsarIntegrityForApp h appPath) \<and>
            \<not> OnlyLoadFromAsar (CheckAsarIntegrityForApp h appPath))"
proof -
  have e: "fst (IsElectronApp h appPath)" using assms(2) by simp
  let ?p = "windowsExePath h appPath"
  have p: "primaryEvidencePath h appPath = ?p"
    by (simp add: primaryEvidencePath_def assms(1))
  show ?thesis
  proof (cases "os_ReadFile h ?p")
    case (Inl msg)
    from CheckAsarIntegrityForApp_windows[OF assms(1) e assms(3)
        checkAsarIntegrityWindows_unreadable[OF Inl]]
    show ?thesis by (simp add: p Inl)
  next
    case (Inr exeContent)
    from CheckAsarIntegrityForApp_windows[OF assms(1) e assms(3)
        checkAsarIntegrityWindows_readable[OF Inr]]
    show ?thesis by (simp add: p Inr)
  qed
qed

lemma integrity_error_supported:
  assumes "runtime_GOOS h = ''darwin'' \<or> runtime_GOOS h = ''windows''"
  shows "(IntegrityError (CheckAsarIntegrityForApp h app) \<noteq> [] \<longleftrightarrow>
            IsElectron (CheckAsarIntegrityForApp h app) \<and>
            HasAsarFile (CheckAsarIntegrityForApp h app) \<and>
            isl (os_ReadFile h (primaryEvidencePath h app))) \<and>
         (IsElectron (CheckAsarIntegrityForApp h app) \<and>
          HasAsarFile (CheckAsarIntegrityForApp h app) \<and>
          isl (os_ReadFile h (primaryEvidencePath h app)) \<longrightarrow>
            \<not> AsarIntegrity (CheckAsarIntegrityForApp h app) \<and>
            \<not> OnlyLoadFromAsar (CheckAsarIntegrityForApp h app))"
proof (cases h app rule: CheckAsarIntegrityForApp_cases)
  case (error isElectron version err)
  with IsElectronApp_supported_no_error[OF assms, of app] show ?thesis by simp
next
  case (negative version)
  then show ?thesis by (simp add: CheckAsarIntegrityForApp_negative)
next
  case (no_archive version)
  then show ?thesis by (simp add: CheckAsarIntegrityForApp_no_archive)
next
  case (archive version)
  note a = CheckAsarIntegrityForApp_archive[OF archive]
  from assms show ?thesis
  proof
    assume "runtime_GOOS h = ''darwin''"
    from archive_result_darwin[OF this archive] a show ?thesis by blast
  next
    assume "runtime_GOOS h = ''windows''"
    from archive_result_windows[OF this archive] a show ?thesis by blast
  qed
qed

text \<open>
  C7. In a scan (the platform is supported, so \<^verbatim>\<open>main\<close> goes on to the
  candidates), every candidate gets a result, and the result of a candidate carries a
  non-empty \<^verbatim>\<open>IntegrityError\<close> exactly when the candidate is of the runtime, its
  archive is present and the primary evidence file (the metadata file on macOS, the
  executable on Windows) cannot be read; both integrity fields are then false.
\<close>

theorem evidence_read_failure:
  assumes "scanResults h listNodeFiles maxNodeFiles apps = Some results"
    and "i < length apps"
  shows "length results = length apps \<and>
         (IntegrityError (results ! i) \<noteq> [] \<longleftrightarrow>
            IsElectron (results ! i) \<and> HasAsarFile (results ! i) \<and>
            isl (os_ReadFile h (primaryEvidencePath h (apps ! i)))) \<and>
         (IsElectron (results ! i) \<and> HasAsarFile (results ! i) \<and>
          isl (os_ReadFile h (primaryEvidencePath h (apps ! i))) \<longrightarrow>
            \<not> AsarIntegrity (results ! i) \<and> \<not> OnlyLoadFromAsar (results ! i))"
proof -
  from assms(1) have os: "runtime_GOOS h = ''darwin'' \<or> runtime_GOOS h = ''windows''"
    and r: "results = map (checkApp h listNodeFiles maxNodeFiles) apps"
    by (auto simp: scanResults_def split: if_splits)
  from r assms(2) have ri: "results ! i = checkApp h listNodeFiles maxNodeFiles (apps ! i)"
    by simp
  from r have len: "length results = length apps" by simp
  from integrity_error_supported[OF os, of "apps ! i"] show ?thesis
    by (simp add: len ri checkApp_fields)
qed

text \<open>
  A bundle with the framework and the archive whose metadata file cannot be read.
\<close>

theorem evidence_read_failure_witness:
  "scanResults (example_host ''darwin'' mac_bundle_unreadable []) True 5
     [''/Applications/Demo.app''] =
     Some [\<lparr>Path = ''/Applications/Demo.app'', IsElectron = True, Version = ''unknown'',
            HasAsarFile = True, AsarIntegrity = False, OnlyLoadFromAsar = False,
            NodeFiles = [],
            IntegrityError = ''error reading Info.plist: permission denied''\<rparr>] \<and>
   (0::nat) < length [''/Applications/Demo.app''] \<and>
   isl (os_ReadFile (example_host ''darwin'' mac_bundle_unreadable [])
          (primaryEvidencePath (example_host ''darwin'' mac_bundle_unreadable [])
             ([''/Applications/Demo.app''] ! 0)))"
proof -
  let ?h = "example_host ''darwin'' mac_bundle_unreadable []"
  let ?r = "\<lparr>Path = ''/Applications/Demo.app'', IsElectron = True, Version = ''unknown'',
            HasAsarFile = True, AsarIntegrity = False, OnlyLoadFromAsar = False,
            NodeFiles = [],
            IntegrityError = ''error reading Info.plist: permission denied''\<rparr>"
  have run: "scanResults ?h True 5 [''/Applications/Demo.app''] = Some [?r]"
    by code_simp
  have i: "(0::nat) < length [''/Applications/Demo.app'']" by simp
  have unreadable: "isl (os_ReadFile ?h (primaryEvidencePath ?h ([''/Applications/Demo.app''] ! 0)))"
    by code_simp
  from evidence_read_failure[OF run i] run i unreadable
  show ?thesis by simp
qed


text \<open>
  A candidate without a metadata file is not of the runtime.
\<close>

theorem non_runtime_defaults_witness:
  "checkApp (example_host ''darwin'' no_files []) True 5 ''/Applications/Notes.app'' =
     \<lparr>Path = ''/Applications/Notes.app'', IsElectron = False, Version = [],
      HasAsarFile = False, AsarIntegrity = False, OnlyLoadFromAsar = False,
      NodeFiles = [], IntegrityError = []\<rparr>"
proof -
  let ?h = "example_host ''darwin'' no_files []"
  have run: "checkApp ?h True 5 ''/Applications/Notes.app'' =
     \<lparr>Path = ''/Applications/Notes.app'', IsElectron = False, Version = [],
      HasAsarFile = False, AsarIntegrity = False, OnlyLoadFromAsar = False,
      NodeFiles = [], IntegrityError = []\<rparr>"
    by code_simp
  then have "\<not> IsElectron (checkApp ?h True 5 ''/Applications/Notes.app'')" by simp
  from non_runtime_defaults[OF this] run show ?thesis by simp
qed

text \<open>
  Outside a scan, on a platform that \<^verbatim>\<open>main\<close> refuses, \<^verbatim>\<open>CheckAsarIntegrityForApp\<close>
  puts the classifier's error into \<^verbatim>\<open>IntegrityError\<close>.
\<close>

lemma unsupported_platform_diagnostic:
  assumes "runtime_GOOS h \<noteq> ''darwin''" and "runtime_GOOS h \<noteq> ''windows''"
  shows "IntegrityError (CheckAsarIntegrityForApp h app) = ''unsupported operating system''"
  using assms by (simp add: CheckAsarIntegrityForApp_def IsElectronApp_def)

section \<open>Version of a bundle with the framework\<close>

lemma scanVersion_firstCapture:
  "scanVersion regexes s version =
     (case firstCapture regexes s of Some v \<Rightarrow> v | None \<Rightarrow> version)"
  by (induction regexes) (simp_all add: firstCapture_def Let_def)

lemma match_here_captures:
  "match_here re s = Some (m, caps) \<Longrightarrow> [] \<notin> set caps"
  by (induction re s arbitrary: m caps rule: match_here.induct)
     (auto split: if_splits option.splits)

lemma FindStringSubmatch_captures:
  "set (tl (FindStringSubmatch re s)) \<subseteq> {c. c \<noteq> []}"
proof (induction re s rule: FindStringSubmatch.induct)
  case (1 re)
  then show ?case by (auto split: option.splits dest: match_here_captures)
next
  case (2 re c cs)
  then show ?case by (auto split: option.splits dest: match_here_captures)
qed

lemma firstCapture_nonempty:
  assumes "firstCapture regexes s = Some v"
  shows "v \<noteq> []"
proof -
  from assms obtain regex where l: "length (FindStringSubmatch regex s) > 1"
    and v: "v = FindStringSubmatch regex s ! 1"
    by (auto simp: firstCapture_def split: option.splits dest: find_Some_iff[THEN iffD1])
  from l have "FindStringSubmatch regex s ! 1 \<in> set (tl (FindStringSubmatch regex s))"
    by (cases "FindStringSubmatch regex s") (auto simp: nth_Cons')
  with FindStringSubmatch_captures[of regex s] v show ?thesis by auto
qed

lemma rule1_version_nonempty: "rule1_version plistContent frameworkPlist \<noteq> []"
  by (auto simp: rule1_version_def split: option.splits dest: firstCapture_nonempty)

text \<open>
  C3, as the code has it. In classifier rule 1 (a macOS bundle whose metadata file is
  not missing and can be read, framework present) the patterns are applied in listed
  order to the content of the bundle's metadata file, and then, whenever the framework's
  own metadata file exists and can be read, in the same order to its content, whatever
  the first file gave: a capture found in the framework's file is the version, else the
  capture found in the bundle's file, else \<^verbatim>\<open>unknown\<close>. Within a file the first
  pattern that matches wins, and a capture is never empty.
\<close>

theorem macos_rule1_version:
  assumes "HasSuffix appPath ''.app''"
    and "os_Stat h (filepath_Join h [appPath, ''Contents'', ''Info.plist'']) \<noteq> ErrNotExist"
    and "os_Stat h (filepath_Join h
           [appPath, ''Contents'', ''Frameworks'', ''Electron Framework.framework'']) = StatOK"
    and "os_ReadFile h (filepath_Join h [appPath, ''Contents'', ''Info.plist'']) = Inr plistContent"
  shows "isElectronAppMacos h appPath =
           (True,
            rule1_version plistContent
              (readIfPresent h
                 (filepath_Join h
                    [filepath_Join h
                       [appPath, ''Contents'', ''Frameworks'', ''Electron Framework.framework''],
                     ''Resources'', ''Info.plist''])),
            None) \<and>
         fst (snd (isElectronAppMacos h appPath)) \<noteq> []"
proof -
  have "isElectronAppMacos h appPath =
           (True,
            rule1_version plistContent
              (readIfPresent h
                 (filepath_Join h
                    [filepath_Join h
                       [appPath, ''Contents'', ''Frameworks'', ''Electron Framework.framework''],
                     ''Resources'', ''Info.plist''])),
            None)"
    using assms
    by (simp add: isElectronAppMacos_def Let_def rule1_version_def readIfPresent_def
        scanVersion_firstCapture split: sum.splits option.splits)
  then show ?thesis by (simp add: rule1_version_nonempty)
qed

text \<open>
  C3 as stated fails: here the bundle's metadata file resolves the version to 1.2.3,
  so the framework's file should not be consulted, and the classifier returns the
  27.0.2 of the framework's file.
\<close>

theorem macos_rule1_version_counterexample:
  "os_ReadFile (example_host ''darwin'' mac_bundle [])
     ''/Applications/Demo.app/Contents/Info.plist'' =
     Inr ''<key>CFBundleVersion</key><string>1.2.3</string><key>ElectronAsarIntegrity</key>'' \<and>
   os_ReadFile (example_host ''darwin'' mac_bundle [])
     ''/Applications/Demo.app/Contents/Frameworks/Electron Framework.framework/Resources/Info.plist'' =
     Inr ''<key>CFBundleVersion</key><string>27.0.2</string>'' \<and>
   firstCapture versionRegexes
     ''<key>CFBundleVersion</key><string>1.2.3</string><key>ElectronAsarIntegrity</key>'' =
     Some ''1.2.3'' \<and>
   spec_rule1_version
     ''<key>CFBundleVersion</key><string>1.2.3</string><key>ElectronAsarIntegrity</key>''
     ''<key>CFBundleVersion</key><string>27.0.2</string>'' = ''1.2.3'' \<and>
   isElectronAppMacos (example_host ''darwin'' mac_bundle []) ''/Applications/Demo.app'' =
     (True, ''27.0.2'', None) \<and>
   fst (snd (isElectronAppMacos (example_host ''darwin'' mac_bundle [])
               ''/Applications/Demo.app'')) \<noteq>
   spec_rule1_version
     ''<key>CFBundleVersion</key><string>1.2.3</string><key>ElectronAsarIntegrity</key>''
     ''<key>CFBundleVersion</key><string>27.0.2</string>''"
  by code_simp

text \<open>
  The same bundle satisfies the hypotheses of the theorem.
\<close>

theorem macos_rule1_version_witness:
  "HasSuffix ''/Applications/Demo.app'' ''.app'' \<and>
   os_Stat (example_host ''darwin'' mac_bundle [])
     (filepath_Join (example_host ''darwin'' mac_bundle [])
        [''/Applications/Demo.app'', ''Contents'', ''Info.plist'']) \<noteq> ErrNotExist \<and>
   os_Stat (example_host ''darwin'' mac_bundle [])
     (filepath_Join (example_host ''darwin'' mac_bundle [])
        [''/Applications/Demo.app'', ''Contents'', ''Frameworks'',
         ''Electron Framework.framework'']) = StatOK \<and>
   os_ReadFile (example_host ''darwin'' mac_bundle [])
     (filepath_Join (example_host ''darwin'' mac_bundle [])
        [''/Applications/Demo.app'', ''Contents'', ''Info.plist'']) =
     Inr ''<key>CFBundleVersion</key><string>1.2.3</string><key>ElectronAsarIntegrity</key>'' \<and>
   rule1_version
     ''<key>CFBundleVersion</key><string>1.2.3</string><key>ElectronAsarIntegrity</key>''
     (Some ''<key>CFBundleVersion</key><string>27.0.2</string>'') = ''27.0.2'' \<and>
   isElectronAppMacos (example_host ''darwin'' mac_bundle []) ''/Applications/Demo.app'' =
     (True, ''27.0.2'', None)"
proof -
  let ?h = "example_host ''darwin'' mac_bundle []"
  let ?app = "''/Applications/Demo.app''"
  let ?c = "''<key>CFBundleVersion</key><string>1.2.3</string><key>ElectronAsarIntegrity</key>''"
  have a: "HasSuffix ?app ''.app''" by code_simp
  have b: "os_Stat ?h (filepath_Join ?h [?app, ''Contents'', ''Info.plist'']) \<noteq> ErrNotExist"
    by code_simp
  have c: "os_Stat ?h (filepath_Join ?h
             [?app, ''Contents'', ''Frameworks'', ''Electron Framework.framework'']) = StatOK"
    by code_simp
  have d: "os_ReadFile ?h (filepath_Join ?h [?app, ''Contents'', ''Info.plist'']) = Inr ?c"
    by code_simp
  have e: "rule1_version ?c (Some ''<key>CFBundleVersion</key><string>27.0.2</string>'') = ''27.0.2''"
    by code_simp
  have f: "readIfPresent ?h
             (filepath_Join ?h
                [filepath_Join ?h
                   [?app, ''Contents'', ''Frameworks'', ''Electron Framework.framework''],
                 ''Resources'', ''Info.plist'']) =
           Some ''<key>CFBundleVersion</key><string>27.0.2</string>''"
    by code_simp
  from macos_rule1_version[OF a b c d] a b c d e f
  show ?thesis by simp
qed

section \<open>The cap of the native-module enumeration\<close>

lemma capReached_append: "capReached N xs \<Longrightarrow> capReached N (xs @ ys)"
  by (auto simp: capReached_def)

lemma upToCap_not_reached: "\<not> capReached N xs \<Longrightarrow> upToCap N xs = xs"
  by (auto simp: capReached_def upToCap_def)

lemma upToCap_append_reached: "capReached N xs \<Longrightarrow> upToCap N (xs @ ys) = upToCap N xs"
  by (auto simp: capReached_def upToCap_def)

lemma upToCap_step:
  assumes "\<not> capReached N nf" and "capReached N (nf @ [p])"
  shows "upToCap N (nf @ [p]) = nf @ [p]"
  using assms by (auto simp: capReached_def upToCap_def)

lemma visit_error: "visit N path name isDir True nf = (nf, SkipDir)"
  by (simp add: visit_def)

lemma visit_directory: "visit N path name True False nf = (nf, NoError)"
  by (simp add: visit_def)

lemma visit_file:
  "visit N path name False False nf =
     (if HasSuffix (ToLower name) ''.node''
      then (nf @ [path], if capReached N (nf @ [path]) then MaxFilesReached else NoError)
      else (nf, NoError))"
  by (simp add: visit_def Let_def capReached_def)

text \<open>
  The walk of a path from a list that has not reached the cap: the files found so far
  followed by the native modules under the path, cut at the cap, and the error
  \<^verbatim>\<open>max files reached\<close> exactly when the cap is reached.
\<close>

lemma walk_spec:
  "\<not> capReached N nf \<Longrightarrow>
     walk h N path name e nf =
       (upToCap N (nf @ nodeFilesUnder h path name e),
        if capReached N (nf @ nodeFilesUnder h path name e) then MaxFilesReached
        else if e = LstatErr \<or> e = DirUnreadable then SkipDir else NoError)"
  and walk_names_spec:
  "\<not> capReached N nf \<Longrightarrow>
     walk_names h N path es nf =
       (upToCap N (nf @ nodeFilesAmong h path es),
        if capReached N (nf @ nodeFilesAmong h path es) then MaxFilesReached else NoError)"
proof (induction h N path name e nf and h N path es nf rule: walk_walk_names.induct)
  case (1 h maxFiles path name nodeFiles)
  then show ?case by (simp add: visit_error upToCap_not_reached)
next
  case (2 h maxFiles path name nodeFiles)
  then show ?case
    by (simp add: visit_file upToCap_not_reached upToCap_step)
next
  case (3 h maxFiles path name nodeFiles)
  then show ?case by (simp add: visit_error upToCap_not_reached)
next
  case (4 h maxFiles path name entries nodeFiles)
  from 4(1)[OF visit_directory[symmetric]] 4(2)
  show ?case by (simp add: visit_directory)
next
  case (5 h maxFiles path nodeFiles)
  then show ?case by (simp add: upToCap_not_reached)
next
  case (6 h maxFiles path name entry rest nodeFiles)
  let ?file = "filepath_Join h [path, name]"
  let ?sub = "nodeFilesUnder h ?file name entry"
  note w = 6(1)[OF refl 6(3)]
  show ?case
  proof (cases "capReached maxFiles (nodeFiles @ ?sub)")
    case True
    then have "capReached maxFiles (nodeFiles @ ?sub @ nodeFilesAmong h path rest)"
      using capReached_append[of maxFiles "nodeFiles @ ?sub"] by simp
    moreover have "upToCap maxFiles (nodeFiles @ ?sub @ nodeFilesAmong h path rest)
                    = upToCap maxFiles (nodeFiles @ ?sub)"
      using upToCap_append_reached[OF True, of "nodeFilesAmong h path rest"] by simp
    ultimately show ?thesis using True w by (simp add: Let_def)
  next
    case False
    then have f: "walk h maxFiles ?file name entry nodeFiles =
                   (nodeFiles @ ?sub,
                    if entry = LstatErr \<or> entry = DirUnreadable then SkipDir else NoError)"
      using w by (simp add: upToCap_not_reached)
    have go: "walk_names h maxFiles path ((name, entry) # rest) nodeFiles =
                walk_names h maxFiles path rest (nodeFiles @ ?sub)"
      using f by (cases entry) (simp_all add: Let_def)
    have "walk_names h maxFiles path rest (nodeFiles @ ?sub) =
            (upToCap maxFiles ((nodeFiles @ ?sub) @ nodeFilesAmong h path rest),
             if capReached maxFiles ((nodeFiles @ ?sub) @ nodeFilesAmong h path rest)
             then MaxFilesReached else NoError)"
      using 6(2)[OF refl f[symmetric] _ False] f by (cases entry) simp_all
    then show ?thesis using go by simp
  qed
qed


lemma filepath_Walk_spec:
  assumes "\<not> capReached N nf"
  shows "filepath_Walk h N root nf =
           (upToCap N (nf @ nodeFilesOfRoot h root),
            if capReached N (nf @ nodeFilesOfRoot h root) then MaxFilesReached else NoError)"
  by (simp add: filepath_Walk_def nodeFilesOfRoot_def walk_spec[OF assms])

lemma capReached_upToCap: "capReached N (upToCap N xs) = capReached N xs"
  by (auto simp: capReached_def upToCap_def)

lemma searchLoop_files:
  assumes "\<not> capReached N nf"
  shows "fst (searchLoop h N roots nf searched) = upToCap N (nf @ nodeFilesOfRoots h roots)"
  using assms
proof (induction roots arbitrary: nf searched)
  case Nil
  then show ?case by (simp add: nodeFilesOfRoots_def upToCap_not_reached)
next
  case (Cons root roots)
  let ?here = "nf @ nodeFilesOfRoot h root"
  have all: "nf @ nodeFilesOfRoots h (root # roots) = ?here @ nodeFilesOfRoots h roots"
    by (simp add: nodeFilesOfRoots_def)
  show ?case
  proof (cases "capReached N ?here")
    case True
    then have "fst (searchLoop h N (root # roots) nf searched) = upToCap N ?here"
      using Cons.prems
      by (simp add: filepath_Walk_spec capReached_upToCap capReached_def[symmetric])
    then show ?thesis using upToCap_append_reached[OF True] all by simp
  next
    case False
    then have "fst (searchLoop h N (root # roots) nf searched) =
                 fst (searchLoop h N roots ?here (searched @ [root]))"
      using Cons.prems
      by (simp add: filepath_Walk_spec upToCap_not_reached capReached_def[symmetric])
    then show ?thesis using Cons.IH[OF False] all by simp
  qed
qed

lemma searchLoop_searched:
  assumes "\<not> capReached N (nf @ nodeFilesOfRoots h pre)"
    and "capReached N (nf @ nodeFilesOfRoots h (pre @ [root]))"
  shows "snd (searchLoop h N (pre @ root # post) nf searched) = searched @ pre @ [root]"
  using assms
proof (induction pre arbitrary: nf searched)
  case Nil
  then have n: "\<not> capReached N nf" and r: "capReached N (nf @ nodeFilesOfRoot h root)"
    by (simp_all add: nodeFilesOfRoots_def)
  then show ?case
    by (simp add: filepath_Walk_spec capReached_upToCap capReached_def[symmetric])
next
  case (Cons r pre)
  let ?here = "nf @ nodeFilesOfRoot h r"
  have split: "\<And>rs. nf @ nodeFilesOfRoots h (r # rs) = ?here @ nodeFilesOfRoots h rs"
    by (simp add: nodeFilesOfRoots_def)
  from Cons.prems(1) have later: "\<not> capReached N (?here @ nodeFilesOfRoots h pre)"
    by (simp add: split)
  then have here: "\<not> capReached N ?here" using capReached_append by blast
  then have n: "\<not> capReached N nf" using capReached_append by blast
  from Cons.prems(2) have reach: "capReached N (?here @ nodeFilesOfRoots h (pre @ [root]))"
    using split[of "pre @ [root]"] by simp
  have "snd (searchLoop h N ((r # pre) @ root # post) nf searched) =
          snd (searchLoop h N (pre @ root # post) ?here (searched @ [r]))"
    using n here
    by (simp add: filepath_Walk_spec upToCap_not_reached capReached_def[symmetric])
  then show ?case using Cons.IH[OF later reach] by simp
qed

text \<open>
  C6. On a supported platform, for a cap \<open>N > 0\<close> and search roots under which more
  than \<open>N\<close> files have a lower-cased name ending in \<^verbatim>\<open>.node\<close>, \<^verbatim>\<open>FindNodeFiles\<close>
  returns exactly \<open>N\<close> paths, the first \<open>N\<close> in the order of the traversal, and the
  roots handed to \<^verbatim>\<open>filepath.Walk\<close> are those up to the root in which the cap is
  reached: no later root is walked.
\<close>

theorem FindNodeFiles_cap:
  assumes "searchRoots h appPath = Some roots"
    and "0 < N" and "N < int (length (nodeFilesOfRoots h roots))"
  shows "length (FindNodeFiles h appPath N) = nat N \<and>
         FindNodeFiles h appPath N = take (nat N) (nodeFilesOfRoots h roots) \<and>
         (\<forall>pre root post.
            roots = pre @ root # post \<and>
            int (length (nodeFilesOfRoots h pre)) < N \<and>
            N \<le> int (length (nodeFilesOfRoots h (pre @ [root]))) \<longrightarrow>
            snd (searchLoop h N roots [] []) = pre @ [root])"
proof -
  have start: "\<not> capReached N []" using assms(2) by (simp add: capReached_def)
  have files: "FindNodeFiles h appPath N = take (nat N) (nodeFilesOfRoots h roots)"
    using assms(1,2) searchLoop_files[OF start, of h roots "[]"]
    by (simp add: FindNodeFiles_def upToCap_def)
  moreover from files assms(2,3) have "length (FindNodeFiles h appPath N) = nat N"
    by simp
  moreover have "snd (searchLoop h N roots [] []) = pre @ [root]"
    if "roots = pre @ root # post"
      and "int (length (nodeFilesOfRoots h pre)) < N"
      and "N \<le> int (length (nodeFilesOfRoots h (pre @ [root])))"
    for pre root post
    using searchLoop_searched[of N "[]" h pre root post "[]"] that assms(2)
    by (simp add: capReached_def)
  ultimately show ?thesis by blast
qed

text \<open>
  Four native modules under the two roots of a macOS bundle and the cap 2: the two
  first modules of the first root are returned, and the second root is not walked.
\<close>

theorem FindNodeFiles_cap_witness:
  "searchRoots (example_host ''darwin'' mac_bundle mac_trees) ''/Applications/Demo.app'' =
     Some [''/Applications/Demo.app/Contents/Resources'',
           ''/Applications/Demo.app/Contents/Frameworks''] \<and>
   nodeFilesOfRoots (example_host ''darwin'' mac_bundle mac_trees)
     [''/Applications/Demo.app/Contents/Resources'',
      ''/Applications/Demo.app/Contents/Frameworks''] =
     [''/Applications/Demo.app/Contents/Resources/a.node'',
      ''/Applications/Demo.app/Contents/Resources/app.asar.unpacked/B.NODE'',
      ''/Applications/Demo.app/Contents/Resources/z.node'',
      ''/Applications/Demo.app/Contents/Frameworks/f.node''] \<and>
   FindNodeFiles (example_host ''darwin'' mac_bundle mac_trees) ''/Applications/Demo.app'' 2 =
     [''/Applications/Demo.app/Contents/Resources/a.node'',
      ''/Applications/Demo.app/Contents/Resources/app.asar.unpacked/B.NODE''] \<and>
   snd (searchLoop (example_host ''darwin'' mac_bundle mac_trees) 2
          [''/Applications/Demo.app/Contents/Resources'',
           ''/Applications/Demo.app/Contents/Frameworks''] [] []) =
     [''/Applications/Demo.app/Contents/Resources'']"
proof -
  let ?h = "example_host ''darwin'' mac_bundle mac_trees"
  let ?r1 = "''/Applications/Demo.app/Contents/Resources''"
  let ?r2 = "''/Applications/Demo.app/Contents/Frameworks''"
  have roots: "searchRoots ?h ''/Applications/Demo.app'' = Some [?r1, ?r2]"
    by code_simp
  have all: "nodeFilesOfRoots ?h [?r1, ?r2] =
     [''/Applications/Demo.app/Contents/Resources/a.node'',
      ''/Applications/Demo.app/Contents/Resources/app.asar.unpacked/B.NODE'',
      ''/Applications/Demo.app/Contents/Resources/z.node'',
      ''/Applications/Demo.app/Contents/Frameworks/f.node'']"
    by code_simp
  have first: "nodeFilesOfRoots ?h ([] @ [?r1]) =
     [''/Applications/Demo.app/Contents/Resources/a.node'',
      ''/Applications/Demo.app/Contents/Resources/app.asar.unpacked/B.NODE'',
      ''/Applications/Demo.app/Contents/Resources/z.node'']"
    by code_simp
  have none: "nodeFilesOfRoots ?h [] = []"
    by code_simp
  have more: "(2::int) < int (length (nodeFilesOfRoots ?h [?r1, ?r2]))"
    by (simp add: all)
  have pos: "(0::int) < 2" by simp
  note t = FindNodeFiles_cap[OF roots pos more]
  from t have files: "FindNodeFiles ?h ''/Applications/Demo.app'' 2 =
      take (nat 2) (nodeFilesOfRoots ?h [?r1, ?r2])"
    by blast
  from t have stop: "\<forall>pre root post.
      [?r1, ?r2] = pre @ root # post \<and>
      int (length (nodeFilesOfRoots ?h pre)) < 2 \<and>
      2 \<le> int (length (nodeFilesOfRoots ?h (pre @ [root]))) \<longrightarrow>
      snd (searchLoop ?h 2 [?r1, ?r2] [] []) = pre @ [root]"
    by blast
  have a: "[?r1, ?r2] = [] @ ?r1 # [?r2]" by simp
  have b: "int (length (nodeFilesOfRoots ?h [])) < 2" by (simp add: none)
  have c: "2 \<le> int (length (nodeFilesOfRoots ?h ([] @ [?r1])))" by (simp only: first) simp
  have "snd (searchLoop ?h 2 [?r1, ?r2] [] []) = [] @ [?r1]"
    using stop[rule_format, OF conjI[OF a conjI[OF b c]]] .
  then have searched: "snd (searchLoop ?h 2 [?r1, ?r2] [] []) = [?r1]"
    by (simp only: append_Nil)
  from roots all files searched show ?thesis
    by (simp add: numeral_2_eq_2 del: searchLoop.simps)
qed

end
